theory Spec2Isabelle
  imports Complex_Main "HOL-Library.AList" "HOL-Library.Char_ord" "HOL-Library.List_Lexorder"
    "HOL-Library.Option_ord" "HOL-Library.Product_Lexorder"
begin

section \<open>Tables\<close>

text \<open>
  The script \<^verbatim>\<open>BBB/BBBP.PY\<close> keeps its data in a pandas table. A table has an ordered
  list of column labels and a list of rows; every row carries its index label and its
  cells, keyed by column label in column order. Column labels may repeat (pandas allows
  it, and \<^verbatim>\<open>pd.concat(..., axis=1)\<close> produces it when both sides share a label).

  A cell is missing (\<^verbatim>\<open>NaN\<close>/\<^verbatim>\<open>None\<close>), a string, an integer, a floating-point
  number (a descriptor value of the chemistry toolkit or a float of the input, kept
  abstract: the script never computes with them), a Python list of such numbers, or a
  boolean.
\<close>

datatype 'v cell = NA | Str string | IntV int | NumV 'v | ListV "'v list" | BoolV bool

type_synonym 'v row = "(string \<times> 'v cell) list"

type_synonym 'v series = "(nat \<times> 'v cell) list"

record 'v frame =
  columns :: "string list"
  rows :: "(nat \<times> 'v row) list"

datatype exn = KeyError string | TypeError | ValueError | IndexError | NotFittedError

definition cell_of :: "'v row \<Rightarrow> string \<Rightarrow> 'v cell" where
  "cell_of r c = (case map_of r c of Some v \<Rightarrow> v | None \<Rightarrow> NA)"

text \<open>\<^verbatim>\<open>df[c]\<close>: the column as a series with the table's index; KeyError when absent.\<close>

definition column :: "'v frame \<Rightarrow> string \<Rightarrow> 'v series" where
  "column df c = map (\<lambda>(i, r). (i, cell_of r c)) (rows df)"

definition getitem :: "'v frame \<Rightarrow> string \<Rightarrow> exn + 'v series" where
  "getitem df c = (if c \<in> set (columns df) then Inr (column df c) else Inl (KeyError c))"

text \<open>\<^verbatim>\<open>df.dropna(subset=[c])\<close>: the rows whose cell in column c is present, with
  their index labels kept; KeyError when the column is absent.\<close>

definition dropna :: "'v frame \<Rightarrow> string \<Rightarrow> exn + 'v frame" where
  "dropna df c =
     (if c \<in> set (columns df)
      then Inr (df\<lparr>rows := filter (\<lambda>(i, r). cell_of r c \<noteq> NA) (rows df)\<rparr>)
      else Inl (KeyError c))"

text \<open>\<^verbatim>\<open>s.apply(f)\<close>: f on every value in order; the first exception of f escapes.\<close>

fun apply_series :: "'v series \<Rightarrow> ('v cell \<Rightarrow> exn + 'v cell) \<Rightarrow> exn + 'v series" where
  "apply_series [] f = Inr []"
| "apply_series ((i, v) # s) f =
     (case f v of
        Inl e \<Rightarrow> Inl e
      | Inr w \<Rightarrow> (case apply_series s f of Inl e \<Rightarrow> Inl e | Inr t \<Rightarrow> Inr ((i, w) # t)))"

text \<open>\<^verbatim>\<open>df[c] = s\<close>: the series is aligned on the index label (a label the series lacks
  gives a missing cell); an existing column keeps its place, a new one goes last.\<close>

definition series_at :: "'v series \<Rightarrow> nat \<Rightarrow> 'v cell" where
  "series_at s i = (case map_of s i of Some v \<Rightarrow> v | None \<Rightarrow> NA)"

definition setitem :: "'v frame \<Rightarrow> string \<Rightarrow> 'v series \<Rightarrow> 'v frame" where
  "setitem df c s =
     \<lparr>columns = (if c \<in> set (columns df) then columns df else columns df @ [c]),
      rows = map (\<lambda>(i, r). (i, AList.update c (series_at s i) r)) (rows df)\<rparr>"

text \<open>\<^verbatim>\<open>df[names]\<close> with a list of labels that are all present: for each requested
  label every column that carries it, in the order requested.\<close>

definition take_columns :: "'v frame \<Rightarrow> string list \<Rightarrow> 'v frame" where
  "take_columns df names =
     \<lparr>columns = concat (map (\<lambda>n. filter (\<lambda>c. c = n) (columns df)) names),
      rows = map (\<lambda>(i, r). (i, concat (map (\<lambda>n. filter (\<lambda>kv. fst kv = n) r) names))) (rows df)\<rparr>"

text \<open>
  \<^verbatim>\<open>df[key]\<close> with a series as key. A key that holds booleans is a mask: the result
  has the rows whose label the mask maps to True. An empty key is not taken for a mask:
  \<^verbatim>\<open>apply\<close> on an empty series calls nothing and returns an empty series of the
  input's element type, which pandas does not recognise as boolean; it then reads the key
  as a list of column labels, here the empty list. (The keys of this script are empty or
  hold booleans only.)
\<close>

definition getitem_series :: "'v frame \<Rightarrow> 'v series \<Rightarrow> 'v frame" where
  "getitem_series df m =
     (if m = [] then take_columns df []
      else df\<lparr>rows := filter (\<lambda>(i, r). map_of m i = Some (BoolV True)) (rows df)\<rparr>)"

text \<open>\<^verbatim>\<open>df.drop(columns=[c], inplace=True)\<close>.\<close>

definition drop_columns :: "'v frame \<Rightarrow> string \<Rightarrow> exn + 'v frame" where
  "drop_columns df c =
     (if c \<in> set (columns df)
      then Inr \<lparr>columns = removeAll c (columns df),
                rows = map (\<lambda>(i, r). (i, AList.delete c r)) (rows df)\<rparr>
      else Inl (KeyError c))"

definition tolist :: "'v series \<Rightarrow> 'v cell list" where
  "tolist s = map snd s"

text \<open>\<^verbatim>\<open>pd.DataFrame(data, columns=names)\<close> on a list of lists: one row per list under a
  fresh index 0, 1, ...; each list has to supply one number per column.\<close>

fun list_row :: "string list \<Rightarrow> 'v cell \<Rightarrow> 'v row option" where
  "list_row names (ListV vs) =
     (if length vs = length names then Some (zip names (map NumV vs)) else None)"
| "list_row names _ = None"

definition DataFrame :: "'v cell list \<Rightarrow> string list \<Rightarrow> exn + 'v frame" where
  "DataFrame data names =
     (if \<forall>d \<in> set data. list_row names d \<noteq> None
      then Inr \<lparr>columns = names,
                rows = zip [0..<length data] (map (\<lambda>d. the (list_row names d)) data)\<rparr>
      else Inl ValueError)"

text \<open>\<^verbatim>\<open>df.reset_index(drop=True)\<close>.\<close>

definition reset_index :: "'v frame \<Rightarrow> 'v frame" where
  "reset_index df = df\<lparr>rows := zip [0..<length (rows df)] (map snd (rows df))\<rparr>"

text \<open>\<^verbatim>\<open>pd.concat([a, b], axis=1)\<close>: the columns of a followed by those of b, joined on
  the index label; a label that one side lacks gets missing cells for that side's
  columns. The labels of a come first, then those only b has.\<close>

definition row_at :: "'v frame \<Rightarrow> nat \<Rightarrow> 'v row" where
  "row_at df i =
     (case map_of (rows df) i of Some r \<Rightarrow> r | None \<Rightarrow> map (\<lambda>c. (c, NA)) (columns df))"

definition concat_axis1 :: "'v frame \<Rightarrow> 'v frame \<Rightarrow> 'v frame" where
  "concat_axis1 a b =
     \<lparr>columns = columns a @ columns b,
      rows = map (\<lambda>i. (i, row_at a i @ row_at b i))
               (map fst (rows a) @ filter (\<lambda>i. i \<notin> fst ` set (rows a)) (map fst (rows b)))\<rparr>"

text \<open>\<^verbatim>\<open>df[names]\<close> with a list of labels; KeyError when a label is absent.\<close>

definition getitem_list :: "'v frame \<Rightarrow> string list \<Rightarrow> exn + 'v frame" where
  "getitem_list df names =
     (case filter (\<lambda>n. n \<notin> set (columns df)) names of
        n # _ \<Rightarrow> Inl (KeyError n)
      | [] \<Rightarrow> Inr (take_columns df names))"

text \<open>What \<^verbatim>\<open>pd.read_csv\<close> returns: index 0, 1, ..., distinct column labels, and in
  every row one cell per column.\<close>

definition from_csv :: "'v frame \<Rightarrow> bool" where
  "from_csv df \<longleftrightarrow>
     map fst (rows df) = [0..<length (rows df)] \<and> distinct (columns df) \<and>
     (\<forall>r \<in> set (rows df). map fst (snd r) = columns df)"

section \<open>Descriptor extraction (lines 19 to 37)\<close>

text \<open>
  The chemistry toolkit is an external collaborator: a parser from identifier strings to
  molecules that may fail, and five descriptor functions on molecules.
\<close>

record ('mol, 'v) rdkit =
  MolFromSmiles :: "string \<Rightarrow> 'mol option"
  MolWt :: "'mol \<Rightarrow> 'v"
  MolLogP :: "'mol \<Rightarrow> 'v"
  NumHDonors :: "'mol \<Rightarrow> 'v"
  NumHAcceptors :: "'mol \<Rightarrow> 'v"
  TPSA :: "'mol \<Rightarrow> 'v"

text \<open>The parser takes strings only; on any other value the binding raises.\<close>

definition compute_descriptors :: "('mol, 'v) rdkit \<Rightarrow> 'v cell \<Rightarrow> exn + 'v cell" where
  "compute_descriptors tk smiles =
     (case smiles of
        Str s \<Rightarrow>
          (case MolFromSmiles tk s of
             None \<Rightarrow> Inr NA
           | Some mol \<Rightarrow>
               Inr (ListV [MolWt tk mol, MolLogP tk mol, NumHDonors tk mol,
                           NumHAcceptors tk mol, TPSA tk mol]))
      | _ \<Rightarrow> Inl TypeError)"

text \<open>The lambda of line 35: \<^verbatim>\<open>Chem.MolFromSmiles(x) is not None\<close>.\<close>

definition valid_smiles :: "('mol, 'v) rdkit \<Rightarrow> 'v cell \<Rightarrow> exn + 'v cell" where
  "valid_smiles tk x =
     (case x of Str s \<Rightarrow> Inr (BoolV (MolFromSmiles tk s \<noteq> None)) | _ \<Rightarrow> Inl TypeError)"

definition descriptor_names :: "string list" where
  "descriptor_names = [''MolWt'', ''MolLogP'', ''NumHDonors'', ''NumHAcceptors'', ''TPSA'']"

text \<open>
  The script is straight-line code on the global \<^verbatim>\<open>df\<close>. A statement that raises ends
  the run; the model then returns the exception together with the value \<^verbatim>\<open>df\<close> had
  at that moment.
\<close>

definition attempt :: "'s \<Rightarrow> exn + 'a \<Rightarrow> ('a \<Rightarrow> (exn \<times> 's) + 'b) \<Rightarrow> (exn \<times> 's) + 'b" where
  "attempt df r k = (case r of Inl e \<Rightarrow> Inl (e, df) | Inr v \<Rightarrow> k v)"

definition bind :: "('e + 'a) \<Rightarrow> ('a \<Rightarrow> 'e + 'b) \<Rightarrow> 'e + 'b" where
  "bind r k = (case r of Inl e \<Rightarrow> Inl e | Inr v \<Rightarrow> k v)"

text \<open>Line 16.\<close>

definition clean :: "'v frame \<Rightarrow> (exn \<times> 'v frame) + 'v frame" where
  "clean df = attempt df (dropna df ''smiles'') Inr"

text \<open>Lines 31 and 32.\<close>

definition add_features :: "('mol, 'v) rdkit \<Rightarrow> 'v frame \<Rightarrow> (exn \<times> 'v frame) + 'v frame" where
  "add_features tk df =
     attempt df (getitem df ''smiles'') (\<lambda>s.
     attempt df (apply_series s (compute_descriptors tk)) (\<lambda>f.
     let df2 = setitem df ''features'' f in
     attempt df2 (dropna df2 ''features'') Inr))"

text \<open>Lines 35 to 37.\<close>

definition filter_valid :: "('mol, 'v) rdkit \<Rightarrow> 'v frame \<Rightarrow> (exn \<times> 'v frame) + 'v frame" where
  "filter_valid tk df =
     attempt df (getitem df ''smiles'') (\<lambda>s.
     attempt df (apply_series s (valid_smiles tk)) (\<lambda>v.
     let df2 = setitem df ''valid_smiles'' v in
     attempt df2 (getitem df2 ''valid_smiles'') (\<lambda>m.
     let df3 = getitem_series df2 m in
     attempt df3 (drop_columns df3 ''valid_smiles'') Inr)))"

text \<open>Lines 16 to 37, from the table that \<^verbatim>\<open>pd.read_csv\<close> returned.\<close>

definition extraction :: "('mol, 'v) rdkit \<Rightarrow> 'v frame \<Rightarrow> (exn \<times> 'v frame) + 'v frame" where
  "extraction tk csv = bind (clean csv) (\<lambda>df1. bind (add_features tk df1) (filter_valid tk))"

section \<open>Dataset assembly (lines 40 to 46)\<close>

record 'v dataset =
  out_df :: "'v frame"
  out_X :: "'v frame"
  out_y :: "'v series"

definition assemble :: "'v frame \<Rightarrow> (exn \<times> 'v frame) + 'v dataset" where
  "assemble df0 =
     attempt df0 (getitem df0 ''features'') (\<lambda>fs.
     attempt df0 (DataFrame (tolist fs) descriptor_names) (\<lambda>features_df.
     let df1 = concat_axis1 (reset_index df0) features_df in
     attempt df1 (getitem_list df1 descriptor_names) (\<lambda>X.
     attempt df1 (getitem df1 ''p_np'') (\<lambda>y.
     Inr \<lparr>out_df = df1, out_X = X, out_y = y\<rparr>))))"

text \<open>Lines 15 to 46.\<close>

definition prepare :: "('mol, 'v) rdkit \<Rightarrow> 'v frame \<Rightarrow> (exn \<times> 'v frame) + 'v dataset" where
  "prepare tk csv = bind (extraction tk csv) assemble"

text \<open>The same script with lines 35 to 37 deleted.\<close>

definition prepare_without_filter ::
  "('mol, 'v) rdkit \<Rightarrow> 'v frame \<Rightarrow> (exn \<times> 'v frame) + 'v dataset" where
  "prepare_without_filter tk csv =
     bind (clean csv) (\<lambda>df1. bind (add_features tk df1) assemble)"

section \<open>Learning primitives\<close>

text \<open>
  scikit-learn is the second external collaborator. An estimator is a class name with its
  constructor arguments. Splitting, fold generation, training and prediction are given
  functions of the library; what the script and the library's documented wrappers add to
  them (argument passing, seeding, the propagation of errors, the choice of the best
  candidate, the metrics) is written out.

  Class labels are the values of the column \<^verbatim>\<open>p_np\<close> as the library reads them:
  integers, strings or booleans. A float label with an integral value is read as that
  class (\<^verbatim>\<open>float_class\<close> tells which floats are integral). A missing label or a
  non-integral float is refused with ValueError, labels of different kinds in one column
  with TypeError.

  Randomness. numpy's global generator has a state; \<^verbatim>\<open>global_rng\<close> is its state
  when the script starts. Training reads a generator and returns what it has learned
  together with the generator's state afterwards. An estimator whose
  \<^verbatim>\<open>random_state\<close> is an integer n trains from a fresh generator
  \<^verbatim>\<open>RandomState(n)\<close> and leaves the global one alone; an estimator without
  \<^verbatim>\<open>random_state\<close> reads the global generator.

  Training can fail: \<^verbatim>\<open>fit\<close> then returns the exception.

  An accuracy is an exact fraction (the library holds the nearest double). The mean of the
  fold accuracies is the library's floating-point mean \<^verbatim>\<open>np_mean\<close>, taken as
  given, so that two candidates tie exactly when they tie in the library.
\<close>

datatype label = LInt int | LStr string | LBool bool

fun label_of :: "('v \<Rightarrow> int option) \<Rightarrow> 'v cell \<Rightarrow> label option" where
  "label_of f (IntV n) = Some (LInt n)"
| "label_of f (Str s) = Some (LStr s)"
| "label_of f (BoolV b) = Some (LBool b)"
| "label_of f (NumV v) = map_option LInt (f v)"
| "label_of f NA = None"
| "label_of f (ListV vs) = None"

fun kind :: "label \<Rightarrow> nat" where
  "kind (LInt n) = 0"
| "kind (LStr s) = 1"
| "kind (LBool b) = 2"

definition same_kind :: "label list \<Rightarrow> bool" where
  "same_kind ls = (length (remdups (map kind ls)) \<le> 1)"

text \<open>The label column as the library's functions read it (first at line 56).\<close>

definition labels_of :: "('v \<Rightarrow> int option) \<Rightarrow> 'v cell list \<Rightarrow> exn + label list" where
  "labels_of f cs =
     (case those (map (label_of f) cs) of
        None \<Rightarrow> Inl ValueError
      | Some ls \<Rightarrow> if same_kind ls then Inr ls else Inl TypeError)"

datatype pvalue = PNone | PInt int | PStr string

type_synonym params = "(string \<times> pvalue) list"

datatype estimator =
    RandomForestClassifier params
  | LogisticRegression params
  | GradientBoostingClassifier params

fun params_of :: "estimator \<Rightarrow> params" where
  "params_of (RandomForestClassifier a) = a"
| "params_of (LogisticRegression a) = a"
| "params_of (GradientBoostingClassifier a) = a"

fun set_params :: "estimator \<Rightarrow> params \<Rightarrow> estimator" where
  "set_params (RandomForestClassifier a) ps =
     RandomForestClassifier (foldl (\<lambda>acc (k, v). AList.update k v acc) a ps)"
| "set_params (LogisticRegression a) ps =
     LogisticRegression (foldl (\<lambda>acc (k, v). AList.update k v acc) a ps)"
| "set_params (GradientBoostingClassifier a) ps =
     GradientBoostingClassifier (foldl (\<lambda>acc (k, v). AList.update k v acc) a ps)"

text \<open>The argument \<^verbatim>\<open>random_state\<close> when it is an integer.\<close>

definition seed_of :: "estimator \<Rightarrow> int option" where
  "seed_of est = (case map_of (params_of est) ''random_state'' of
                    Some (PInt n) \<Rightarrow> Some n | _ \<Rightarrow> None)"

text \<open>
  Whether training draws random numbers: the forest and the boosted ensemble do; logistic
  regression does only with the solvers liblinear, sag and saga (the default is lbfgs).
\<close>

fun draws :: "estimator \<Rightarrow> bool" where
  "draws (LogisticRegression a) =
     (map_of a ''solver'' \<in> {Some (PStr ''liblinear''), Some (PStr ''sag''), Some (PStr ''saga'')})"
| "draws (RandomForestClassifier a) = True"
| "draws (GradientBoostingClassifier a) = True"

record ('v, 'g, 'm) sklearn =
  float_class :: "'v \<Rightarrow> int option"
  train_test_split ::
    "'v row list \<Rightarrow> label list \<Rightarrow> rat \<Rightarrow> label list \<Rightarrow> int
       \<Rightarrow> exn + ('v row list \<times> 'v row list \<times> label list \<times> label list)"
  cv_split :: "nat \<Rightarrow> label list \<Rightarrow> (nat list \<times> nat list) list"
  global_rng :: 'g
  RandomState :: "int \<Rightarrow> 'g"
  fit :: "estimator \<Rightarrow> 'g \<Rightarrow> 'v row list \<Rightarrow> label list \<Rightarrow> exn + ('m \<times> 'g)"
  predict :: "'m \<Rightarrow> 'v row \<Rightarrow> label"
  np_mean :: "rat list \<Rightarrow> rat"
  feature_importances :: "'m \<Rightarrow> real list"

text \<open>
  \<^verbatim>\<open>est.fit(X, y)\<close> while the global generator is in state g: what was learned and
  the state of the global generator afterwards, or the exception.
\<close>

definition train ::
  "('v, 'g, 'm) sklearn \<Rightarrow> estimator \<Rightarrow> 'g \<Rightarrow> 'v row list \<Rightarrow> label list \<Rightarrow> exn + ('m \<times> 'g)" where
  "train sk est g xs ys =
     (case fit sk est (case seed_of est of Some n \<Rightarrow> RandomState sk n | None \<Rightarrow> g) xs ys of
        Inl e \<Rightarrow> Inl e
      | Inr (m, g') \<Rightarrow> Inr (m, if seed_of est = None \<and> draws est then g' else g))"

text \<open>An estimator object: its arguments and, once fitted, what it has learned.\<close>

record 'm classifier =
  spec :: estimator
  fitted :: "'m option"

definition fit_classifier ::
  "('v, 'g, 'm) sklearn \<Rightarrow> 'm classifier \<Rightarrow> 'g \<Rightarrow> 'v row list \<Rightarrow> label list
     \<Rightarrow> exn + ('m classifier \<times> 'g)" where
  "fit_classifier sk clf g xs ys =
     (case train sk (spec clf) g xs ys of
        Inl e \<Rightarrow> Inl e | Inr (m, g') \<Rightarrow> Inr (clf\<lparr>fitted := Some m\<rparr>, g'))"

definition predict_classifier ::
  "('v, 'g, 'm) sklearn \<Rightarrow> 'm classifier \<Rightarrow> 'v row list \<Rightarrow> exn + label list" where
  "predict_classifier sk clf xs =
     (case fitted clf of None \<Rightarrow> Inl NotFittedError | Some m \<Rightarrow> Inr (map (predict sk m) xs))"

text \<open>
  \<^verbatim>\<open>accuracy_score\<close>: the fraction of positions where the two label lists agree;
  ValueError on empty lists and on lists of different lengths.
\<close>

definition accuracy_score :: "label list \<Rightarrow> label list \<Rightarrow> exn + rat" where
  "accuracy_score y_true y_pred =
     (if y_true = [] \<or> length y_true \<noteq> length y_pred then Inl ValueError
      else Inr (of_nat (length (filter (\<lambda>(t, p). t = p) (zip y_true y_pred)))
                / of_nat (length y_true)))"

section \<open>Hyperparameter search (lines 61 to 79)\<close>

definition param_grid :: "(string \<times> pvalue list) list" where
  "param_grid =
     [(''n_estimators'', [PInt 100, PInt 200]),
      (''max_depth'', [PNone, PInt 10, PInt 20]),
      (''min_samples_split'', [PInt 2, PInt 5]),
      (''min_samples_leaf'', [PInt 1, PInt 2]),
      (''max_features'', [PStr ''sqrt'', PStr ''log2''])]"

text \<open>\<^verbatim>\<open>ParameterGrid\<close>: the keys in sorted order, then every combination of one value
  per key, the last key varying fastest.\<close>

fun product_dicts :: "(string \<times> pvalue list) list \<Rightarrow> params list" where
  "product_dicts [] = [[]]"
| "product_dicts ((k, vs) # rest) =
     concat (map (\<lambda>v. map (\<lambda>d. (k, v) # d) (product_dicts rest)) vs)"

definition ParameterGrid :: "(string \<times> pvalue list) list \<Rightarrow> params list" where
  "ParameterGrid grid = product_dicts (sort_key fst grid)"

definition take_rows :: "'a list \<Rightarrow> nat list \<Rightarrow> 'a list" where
  "take_rows xs idx = map (\<lambda>i. xs ! i) idx"

text \<open>
  One candidate on one fold: train on the fold's training part, score the predictions on
  the rest. With the default \<^verbatim>\<open>error_score=nan\<close> a training or scoring that raises
  does not end the search; the fold's score is then not a number.
\<close>

datatype fold_result = FitFailed | ScoreFailed | Scored rat

fun test_score :: "fold_result \<Rightarrow> rat option" where
  "test_score (Scored a) = Some a"
| "test_score FitFailed = None"
| "test_score ScoreFailed = None"

definition fit_and_score ::
  "('v, 'g, 'm) sklearn \<Rightarrow> estimator \<Rightarrow> 'v row list \<Rightarrow> label list \<Rightarrow> nat list \<times> nat list
     \<Rightarrow> fold_result" where
  "fit_and_score sk est xs ys part =
     (case train sk est (global_rng sk) (take_rows xs (fst part)) (take_rows ys (fst part)) of
        Inl e \<Rightarrow> FitFailed
      | Inr (m, g) \<Rightarrow>
          (case accuracy_score (take_rows ys (snd part))
                  (map (predict sk m) (take_rows xs (snd part))) of
             Inl e \<Rightarrow> ScoreFailed
           | Inr a \<Rightarrow> Scored a))"

text \<open>The mean test score of a candidate; not a number as soon as one fold's score is.\<close>

definition mean_test_score :: "('v, 'g, 'm) sklearn \<Rightarrow> fold_result list \<Rightarrow> rat option" where
  "mean_test_score sk rs = map_option (np_mean sk) (those (map test_score rs))"

text \<open>
  The candidate of rank 1: the first one in grid order that no other exceeds. A mean that
  is not a number (None) ranks below every number.
\<close>

fun best_index :: "rat option list \<Rightarrow> nat" where
  "best_index [] = 0"
| "best_index (s # rest) = (if list_all (\<lambda>u. u \<le> s) rest then 0 else Suc (best_index rest))"

record 'm grid_search =
  cv_results :: "(params \<times> rat option) list"
  best_params :: params
  best_score :: "rat option"
  best_estimator :: "'m classifier"

definition fold_indices_ok :: "nat \<Rightarrow> (nat list \<times> nat list) list \<Rightarrow> bool" where
  "fold_indices_ok n folds = list_all (\<lambda>(tr, te). list_all (\<lambda>i. i < n) (tr @ te)) folds"

definition search_results ::
  "('v, 'g, 'm) sklearn \<Rightarrow> estimator \<Rightarrow> params list \<Rightarrow> (nat list \<times> nat list) list
     \<Rightarrow> 'v row list \<Rightarrow> label list \<Rightarrow> fold_result list list" where
  "search_results sk est candidates folds xs ys =
     map (\<lambda>p. map (fit_and_score sk (set_params est p) xs ys) folds) candidates"

definition all_fits_failed :: "fold_result list list \<Rightarrow> bool" where
  "all_fits_failed results =
     (concat results \<noteq> [] \<and> list_all (\<lambda>r. r = FitFailed) (concat results))"

text \<open>The refit of candidate i on all of X and y; an exception of this training escapes.\<close>

definition refit ::
  "('v, 'g, 'm) sklearn \<Rightarrow> estimator \<Rightarrow> params list \<Rightarrow> rat option list \<Rightarrow> nat \<Rightarrow> 'g
     \<Rightarrow> 'v row list \<Rightarrow> label list \<Rightarrow> exn + ('m grid_search \<times> 'g)" where
  "refit sk est candidates scores i g xs ys =
     (case train sk (set_params est (candidates ! i)) g xs ys of
        Inl e \<Rightarrow> Inl e
      | Inr (m, g') \<Rightarrow>
          Inr (\<lparr>cv_results = zip candidates scores,
                best_params = candidates ! i,
                best_score = scores ! i,
                best_estimator = \<lparr>spec = set_params est (candidates ! i), fitted = Some m\<rparr>\<rparr>,
               g'))"

definition format_results ::
  "('v, 'g, 'm) sklearn \<Rightarrow> estimator \<Rightarrow> params list \<Rightarrow> rat option list \<Rightarrow> 'g
     \<Rightarrow> 'v row list \<Rightarrow> label list \<Rightarrow> exn + ('m grid_search \<times> 'g)" where
  "format_results sk est candidates scores g xs ys =
     refit sk est candidates scores (best_index scores) g xs ys"

text \<open>The search raises ValueError when every single training failed.\<close>

definition evaluate_candidates ::
  "('v, 'g, 'm) sklearn \<Rightarrow> estimator \<Rightarrow> params list \<Rightarrow> fold_result list list \<Rightarrow> 'g
     \<Rightarrow> 'v row list \<Rightarrow> label list \<Rightarrow> exn + ('m grid_search \<times> 'g)" where
  "evaluate_candidates sk est candidates results g xs ys =
     (if all_fits_failed results then Inl ValueError
      else format_results sk est candidates (map (mean_test_score sk) results) g xs ys)"

text \<open>
  An empty grid is refused. The fold indices are positions of the training set (the
  library's splitter returns no others; indexing outside would raise IndexError).
\<close>

definition run_search ::
  "('v, 'g, 'm) sklearn \<Rightarrow> estimator \<Rightarrow> params list \<Rightarrow> (nat list \<times> nat list) list \<Rightarrow> 'g
     \<Rightarrow> 'v row list \<Rightarrow> label list \<Rightarrow> exn + ('m grid_search \<times> 'g)" where
  "run_search sk est candidates folds g xs ys =
     (if candidates = [] then Inl ValueError
      else if \<not> fold_indices_ok (length xs) folds then Inl IndexError
      else evaluate_candidates sk est candidates
             (search_results sk est candidates folds xs ys) g xs ys)"

text \<open>
  \<^verbatim>\<open>GridSearchCV(est, grid, cv=cv, scoring='accuracy', n_jobs=-1).fit(X, y)\<close> for a
  classifier, with the refit of the best candidate. An integer cv means stratified folds
  without shuffling; the splitter raises ValueError when no class has cv members (an
  empty training set included). The candidates are trained in worker processes and leave
  the global generator of the script alone; only the refit runs in the script's process.
  (The estimator of the script is seeded, so no training of the search reads a global
  generator; for an unseeded one the model lets a worker start from the script's start
  state.)
\<close>

definition GridSearchCV ::
  "('v, 'g, 'm) sklearn \<Rightarrow> estimator \<Rightarrow> (string \<times> pvalue list) list \<Rightarrow> nat \<Rightarrow> 'g
     \<Rightarrow> 'v row list \<Rightarrow> label list \<Rightarrow> exn + ('m grid_search \<times> 'g)" where
  "GridSearchCV sk est grid cv g xs ys =
     (if length xs \<noteq> length ys then Inl ValueError
      else if list_all (\<lambda>c. count_list ys c < cv) ys then Inl ValueError
      else run_search sk est (ParameterGrid grid) (cv_split sk cv ys) g xs ys)"

section \<open>Evaluation (lines 83 to 99)\<close>

text \<open>
  \<^verbatim>\<open>confusion_matrix(y_true, y_pred)\<close> without a label list: the labels are those
  that occur in either argument, in ascending order (numbers by value, strings
  lexicographically, False before True); rows are actual labels, columns predicted ones.
  ValueError on empty lists, on lists of different lengths and on labels of different
  kinds.
\<close>

fun label_key :: "label \<Rightarrow> nat \<times> int \<times> string \<times> bool" where
  "label_key (LBool b) = (0, 0, [], b)"
| "label_key (LInt n) = (1, n, [], False)"
| "label_key (LStr s) = (2, 0, s, False)"

definition unique_labels :: "label list \<Rightarrow> label list \<Rightarrow> label list" where
  "unique_labels y_true y_pred = sort_key label_key (remdups (y_true @ y_pred))"

definition confusion_matrix :: "label list \<Rightarrow> label list \<Rightarrow> exn + nat list list" where
  "confusion_matrix y_true y_pred =
     (if y_true = [] \<or> length y_true \<noteq> length y_pred then Inl ValueError
      else if \<not> same_kind (y_true @ y_pred) then Inl ValueError
      else Inr (map (\<lambda>a. map (\<lambda>p. length (filter (\<lambda>(t, q). t = a \<and> q = p)
                                                (zip y_true y_pred)))
                              (unique_labels y_true y_pred))
                    (unique_labels y_true y_pred)))"

text \<open>Lines 83 to 90: the predictions, the accuracy and the confusion matrix.\<close>

definition evaluate ::
  "('v, 'g, 'm) sklearn \<Rightarrow> 'm classifier \<Rightarrow> 'v row list \<Rightarrow> label list
     \<Rightarrow> exn + (label list \<times> rat \<times> nat list list)" where
  "evaluate sk best_model X_test y_test =
     (case predict_classifier sk best_model X_test of
        Inl e \<Rightarrow> Inl e
      | Inr y_pred \<Rightarrow>
          (case accuracy_score y_test y_pred of
             Inl e \<Rightarrow> Inl e
           | Inr acc \<Rightarrow>
               (case confusion_matrix y_test y_pred of
                  Inl e \<Rightarrow> Inl e
                | Inr c \<Rightarrow> Inr (y_pred, acc, c))))"

text \<open>Lines 98 and 99: the bar plot pairs the importances with the five descriptor
  names and raises when their numbers differ.\<close>

definition feature_importances_of :: "('v, 'g, 'm) sklearn \<Rightarrow> 'm classifier \<Rightarrow> real list" where
  "feature_importances_of sk clf =
     (case fitted clf of Some m \<Rightarrow> feature_importances sk m | None \<Rightarrow> [])"

definition barplot :: "real list \<Rightarrow> exn + (string \<times> real) list" where
  "barplot x =
     (if length x = length descriptor_names then Inr (zip descriptor_names x)
      else Inl ValueError)"

section \<open>Model comparison (lines 106 to 117)\<close>

text \<open>
  The dictionary \<^verbatim>\<open>models\<close> holds references. Objects live in a heap, a list indexed
  by address; \<^verbatim>\<open>clf.fit\<close> overwrites the object at the address of clf, and an
  exception of \<^verbatim>\<open>clf.fit\<close> or of \<^verbatim>\<open>accuracy_score\<close> ends the loop and the run.
  The loop returns the heap, the state of the global generator and the printed accuracies.
\<close>

fun compare_loop ::
  "('v, 'g, 'm) sklearn \<Rightarrow> 'v row list \<Rightarrow> label list \<Rightarrow> 'v row list \<Rightarrow> label list
     \<Rightarrow> (string \<times> nat) list \<Rightarrow> 'm classifier list \<Rightarrow> 'g \<Rightarrow> (string \<times> rat) list
     \<Rightarrow> exn + ('m classifier list \<times> 'g \<times> (string \<times> rat) list)" where
  "compare_loop sk X_train y_train X_test y_test [] heap g out = Inr (heap, g, out)"
| "compare_loop sk X_train y_train X_test y_test ((name, clf) # rest) heap g out =
     (case fit_classifier sk (heap ! clf) g X_train y_train of
        Inl e \<Rightarrow> Inl e
      | Inr (fitted_clf, g') \<Rightarrow>
          (case predict_classifier sk fitted_clf X_test of
             Inl e \<Rightarrow> Inl e
           | Inr pred \<Rightarrow>
               (case accuracy_score y_test pred of
                  Inl e \<Rightarrow> Inl e
                | Inr acc \<Rightarrow>
                    compare_loop sk X_train y_train X_test y_test rest
                      (heap[clf := fitted_clf]) g' (out @ [(name, acc)]))))"

definition compare_models ::
  "('v, 'g, 'm) sklearn \<Rightarrow> 'm classifier \<Rightarrow> 'g \<Rightarrow> 'v row list \<Rightarrow> label list
     \<Rightarrow> 'v row list \<Rightarrow> label list
     \<Rightarrow> exn + ('m classifier list \<times> 'g \<times> (string \<times> rat) list)" where
  "compare_models sk best_model g X_train y_train X_test y_test =
     compare_loop sk X_train y_train X_test y_test
       [(''RandomForest'', 0), (''LogisticRegression'', 1), (''GradientBoosting'', 2)]
       [best_model,
        \<lparr>spec = LogisticRegression [(''max_iter'', PInt 1000)], fitted = None\<rparr>,
        \<lparr>spec = GradientBoostingClassifier [], fitted = None\<rparr>]
       g []"

section \<open>The whole script\<close>

text \<open>
  Console output and plots are left out, except for the bar plot of line 99, which can
  raise. Lines 56 to 79: the split and the search on the training subset.
\<close>

definition tune ::
  "('v, 'g, 'm) sklearn \<Rightarrow> 'v dataset
     \<Rightarrow> (exn \<times> 'v frame)
         + ('v row list \<times> 'v row list \<times> label list \<times> label list \<times> 'm grid_search \<times> 'g)" where
  "tune sk d =
     attempt (out_df d) (labels_of (float_class sk) (tolist (out_y d))) (\<lambda>y.
     attempt (out_df d) (train_test_split sk (map snd (rows (out_X d))) y (1 / 5) y 42)
       (\<lambda>(X_train, X_test, y_train, y_test).
     attempt (out_df d)
       (GridSearchCV sk (RandomForestClassifier [(''random_state'', PInt 42)]) param_grid 5
          (global_rng sk) X_train y_train)
       (\<lambda>(grid_search, g). Inr (X_train, X_test, y_train, y_test, grid_search, g))))"

record ('v, 'm) scores =
  data :: "'v dataset"
  search :: "'m grid_search"
  accuracy :: rat
  cm :: "nat list list"

text \<open>Lines 15 to 90: the run up to the confusion matrix.\<close>

definition evaluation ::
  "('mol, 'v) rdkit \<Rightarrow> ('v, 'g, 'm) sklearn \<Rightarrow> 'v frame
     \<Rightarrow> (exn \<times> 'v frame) + ('v, 'm) scores" where
  "evaluation tk sk csv =
     bind (prepare tk csv) (\<lambda>d.
     bind (tune sk d) (\<lambda>(X_train, X_test, y_train, y_test, grid_search, g).
     attempt (out_df d) (evaluate sk (best_estimator grid_search) X_test y_test)
       (\<lambda>(y_pred, acc, c).
     Inr \<lparr>data = d, search = grid_search, accuracy = acc, cm = c\<rparr>)))"

record ('v, 'm) report =
  scored :: "('v, 'm) scores"
  importances :: "(string \<times> real) list"
  heap_after :: "'m classifier list"
  comparison :: "(string \<times> rat) list"

text \<open>Lines 56 to 117, from the assembled dataset.\<close>

definition analyse ::
  "('v, 'g, 'm) sklearn \<Rightarrow> 'v dataset \<Rightarrow> (exn \<times> 'v frame) + ('v, 'm) report" where
  "analyse sk d =
     bind (tune sk d) (\<lambda>(X_train, X_test, y_train, y_test, grid_search, g).
     attempt (out_df d) (evaluate sk (best_estimator grid_search) X_test y_test)
       (\<lambda>(y_pred, acc, c).
     attempt (out_df d) (barplot (feature_importances_of sk (best_estimator grid_search)))
       (\<lambda>bars.
     attempt (out_df d)
       (compare_models sk (best_estimator grid_search) g X_train y_train X_test y_test)
       (\<lambda>(heap, g', printed).
     Inr \<lparr>scored = \<lparr>data = d, search = grid_search, accuracy = acc, cm = c\<rparr>,
          importances = bars, heap_after = heap, comparison = printed\<rparr>))))"

definition script ::
  "('mol, 'v) rdkit \<Rightarrow> ('v, 'g, 'm) sklearn \<Rightarrow> 'v frame \<Rightarrow> (exn \<times> 'v frame) + ('v, 'm) report" where
  "script tk sk csv = bind (prepare tk csv) (analyse sk)"

subsection \<open>A stand-in toolkit for running the script on small tables\<close>

text \<open>
  Molecules are strings over the letters C, N and O; any other character makes the parse
  fail. The descriptor values are integers computed from the letter counts.
\<close>

definition toy_count :: "char \<Rightarrow> string \<Rightarrow> int" where
  "toy_count c s = int (length (filter (\<lambda>x. x = c) s))"

definition toy :: "(string, int) rdkit" where
  "toy =
     \<lparr>MolFromSmiles = (\<lambda>s. if list_all (\<lambda>c. c \<in> set ''CNO'') s then Some s else None),
      MolWt = (\<lambda>m. 12 * toy_count CHR ''C'' m + 14 * toy_count CHR ''N'' m
                    + 16 * toy_count CHR ''O'' m),
      MolLogP = (\<lambda>m. toy_count CHR ''C'' m - toy_count CHR ''O'' m),
      NumHDonors = (\<lambda>m. toy_count CHR ''N'' m + toy_count CHR ''O'' m),
      NumHAcceptors = (\<lambda>m. toy_count CHR ''N'' m + toy_count CHR ''O'' m),
      TPSA = (\<lambda>m. 26 * toy_count CHR ''N'' m + 20 * toy_count CHR ''O'' m)\<rparr>"

definition table :: "string list \<Rightarrow> 'v cell list list \<Rightarrow> 'v frame" where
  "table cols body = \<lparr>columns = cols, rows = zip [0..<length body] (map (zip cols) body)\<rparr>"

text \<open>
  A stand-in learner. A model is a constant class. The generator's state is a number;
  seeding with n gives state n, and a training that draws advances the state by one. A
  forest with 200 trees learns the most frequent training label when it starts from an
  even state and the least frequent one from an odd state, a forest with another tree
  count the other way round; an empty training set is refused. The two baselines learn the
  most frequent label and refuse training labels of a single class, as the library's do.
  The split refuses a class with fewer than 2 members and parts smaller than the number
  of classes, and otherwise puts the first fifth of the rows (rounded up) into the test
  part; fold j of k holds the positions congruent to j.
\<close>

fun toy_frequent :: "label list \<Rightarrow> label list \<Rightarrow> label" where
  "toy_frequent ys [] = LInt 0"
| "toy_frequent ys [c] = c"
| "toy_frequent ys (c # cs) =
     (if count_list ys (toy_frequent ys cs) \<le> count_list ys c then c else toy_frequent ys cs)"

fun toy_rare :: "label list \<Rightarrow> label list \<Rightarrow> label" where
  "toy_rare ys [] = LInt 0"
| "toy_rare ys [c] = c"
| "toy_rare ys (c # cs) =
     (if count_list ys c < count_list ys (toy_rare ys cs) then c else toy_rare ys cs)"

definition toy_fit ::
  "estimator \<Rightarrow> nat \<Rightarrow> int row list \<Rightarrow> label list \<Rightarrow> exn + (label \<times> nat)" where
  "toy_fit est g xs ys =
     (case est of
        RandomForestClassifier a \<Rightarrow>
          if ys = [] then Inl ValueError
          else if (map_of a ''n_estimators'' = Some (PInt 200)) = even g
          then Inr (toy_frequent ys (remdups ys), Suc g)
          else Inr (toy_rare ys (remdups ys), Suc g)
      | LogisticRegression a \<Rightarrow>
          if length (remdups ys) < 2 then Inl ValueError
          else Inr (toy_frequent ys (remdups ys), g)
      | GradientBoostingClassifier a \<Rightarrow>
          if length (remdups ys) < 2 then Inl ValueError
          else Inr (toy_frequent ys (remdups ys), Suc g))"

definition toy_split ::
  "int row list \<Rightarrow> label list \<Rightarrow> rat \<Rightarrow> label list \<Rightarrow> int
     \<Rightarrow> exn + (int row list \<times> int row list \<times> label list \<times> label list)" where
  "toy_split xs ys test_size stratify seed =
     (if list_ex (\<lambda>c. count_list stratify c < 2) stratify then Inl ValueError
      else if (length xs + 4) div 5 < length (remdups stratify) then Inl ValueError
      else if length xs - (length xs + 4) div 5 < length (remdups stratify) then Inl ValueError
      else Inr (drop ((length xs + 4) div 5) xs, take ((length xs + 4) div 5) xs,
                drop ((length xs + 4) div 5) ys, take ((length xs + 4) div 5) ys))"

definition toy_sklearn :: "(int, nat, label) sklearn" where
  "toy_sklearn =
     \<lparr>float_class = Some,
      train_test_split = toy_split,
      cv_split = (\<lambda>k ys.
          map (\<lambda>j. (filter (\<lambda>i. i mod k \<noteq> j) [0..<length ys],
                     filter (\<lambda>i. i mod k = j) [0..<length ys])) [0..<k]),
      global_rng = 7,
      RandomState = nat,
      fit = toy_fit,
      predict = (\<lambda>m x. m),
      np_mean = (\<lambda>scores. sum_list scores / of_nat (length scores)),
      feature_importances = (\<lambda>m. [1 / 5, 1 / 5, 1 / 5, 1 / 5, 1 / 5])\<rparr>"

text \<open>Small input tables.\<close>

definition short_csv :: "int frame" where
  "short_csv = table [''p_np'', ''smiles'']
     [[IntV 1, Str ''CCO''], [IntV 0, NA], [IntV 0, Str ''C(x''], [IntV 1, Str ''CN'']]"

definition no_label_csv :: "int frame" where
  "no_label_csv = table [''name'', ''smiles''] [[Str ''a'', Str ''CCO'']]"

definition no_identifier_csv :: "int frame" where
  "no_identifier_csv = table [''name'', ''p_np''] [[Str ''a'', IntV 1]]"

definition only_invalid_csv :: "int frame" where
  "only_invalid_csv = table [''p_np'', ''smiles''] [[IntV 0, Str ''C(x'']]"

definition clash_csv :: "int frame" where
  "clash_csv = table [''TPSA'', ''p_np'', ''smiles''] [[NA, IntV 1, Str ''CCO'']]"

text \<open>
  A table with eight usable records of two classes; the stand-in split leaves six of
  them, five of class 1, for training. And a table whose seven records all have class 1.
\<close>

definition study_csv :: "int frame" where
  "study_csv = table [''name'', ''p_np'', ''smiles'']
     [[Str ''a'', IntV 1, Str ''CCO''],
      [Str ''b'', IntV 0, NA],
      [Str ''c'', IntV 0, Str ''C(x''],
      [Str ''d'', IntV 0, Str ''CN''],
      [Str ''e'', IntV 1, Str ''CCC''],
      [Str ''f'', IntV 1, Str ''N''],
      [Str ''g'', IntV 1, Str ''OCO''],
      [Str ''h'', IntV 0, Str ''CCN''],
      [Str ''i'', IntV 1, Str ''CC''],
      [Str ''j'', IntV 1, Str ''CO'']]"

definition study_data :: "int dataset" where
  "study_data = projr (prepare toy study_csv)"

definition one_class_csv :: "int frame" where
  "one_class_csv = table [''p_np'', ''smiles'']
     [[IntV 1, Str ''CCO''], [IntV 1, Str ''CN''], [IntV 1, Str ''CCC''], [IntV 1, Str ''N''],
      [IntV 1, Str ''OCO''], [IntV 1, Str ''CCN''], [IntV 1, Str ''CC'']]"

section \<open>Functions used to state the properties\<close>

text \<open>
  The records of the input whose identifier is a string that parses, the feature cell the
  script computes for a record, and closed forms of the table after each stage.
\<close>

definition identifier_parses :: "('mol, 'v) rdkit \<Rightarrow> 'v row \<Rightarrow> bool" where
  "identifier_parses tk r =
     (case cell_of r ''smiles'' of Str s \<Rightarrow> MolFromSmiles tk s \<noteq> None | _ \<Rightarrow> False)"

definition survivors :: "('mol, 'v) rdkit \<Rightarrow> 'v frame \<Rightarrow> (nat \<times> 'v row) list" where
  "survivors tk csv = filter (\<lambda>(i, r). identifier_parses tk r) (rows csv)"

definition feature_cell :: "('mol, 'v) rdkit \<Rightarrow> 'v row \<Rightarrow> 'v cell" where
  "feature_cell tk r =
     (case compute_descriptors tk (cell_of r ''smiles'') of Inr c \<Rightarrow> c | Inl e \<Rightarrow> NA)"

definition feature_row :: "'v row \<Rightarrow> 'v row" where
  "feature_row r = (case list_row descriptor_names (cell_of r ''features'') of
                      Some f \<Rightarrow> f | None \<Rightarrow> [])"

definition is_text :: "'v cell \<Rightarrow> bool" where
  "is_text c = (case c of Str s \<Rightarrow> True | _ \<Rightarrow> False)"

definition joined :: "'v frame \<Rightarrow> 'v frame" where
  "joined df0 = \<lparr>columns = columns df0 @ descriptor_names,
                  rows = zip [0..<length (rows df0)]
                           (map (\<lambda>(i, r). r @ feature_row r) (rows df0))\<rparr>"

definition kept_row :: "('mol, 'v) rdkit \<Rightarrow> 'v row \<Rightarrow> 'v row" where
  "kept_row tk r = AList.delete ''valid_smiles'' (AList.update ''features'' (feature_cell tk r) r)"

definition with_features :: "('mol, 'v) rdkit \<Rightarrow> 'v frame \<Rightarrow> 'v frame" where
  "with_features tk csv =
     \<lparr>columns = (if ''features'' \<in> set (columns csv) then columns csv
                  else columns csv @ [''features'']),
      rows = map (\<lambda>(i, r). (i, AList.update ''features'' (feature_cell tk r) r))
               (survivors tk csv)\<rparr>"

definition extracted :: "('mol, 'v) rdkit \<Rightarrow> 'v frame \<Rightarrow> 'v frame" where
  "extracted tk csv =
     \<lparr>columns = removeAll ''valid_smiles''
                  (if ''features'' \<in> set (columns csv) then columns csv
                   else columns csv @ [''features'']),
      rows = map (\<lambda>(i, r). (i, kept_row tk r)) (survivors tk csv)\<rparr>"

definition present :: "'v frame \<Rightarrow> 'v frame" where
  "present csv = csv\<lparr>rows := filter (\<lambda>(i, r). cell_of r ''smiles'' \<noteq> NA) (rows csv)\<rparr>"

definition bad_identifier :: "'v frame \<Rightarrow> bool" where
  "bad_identifier csv \<longleftrightarrow>
     (\<exists>(i, r) \<in> set (rows csv). cell_of r ''smiles'' \<noteq> NA \<and> \<not> is_text (cell_of r ''smiles''))"

text \<open>
  The search in the claim's words: a combination of the grid, the forest of the script
  with that combination (seed 42), its accuracy on one fold (none when the training fails
  or the held-out part is empty), its mean accuracy over the folds the splitter returns,
  and the accuracy of a fitted model on the test subset.
\<close>

definition combination :: "pvalue \<Rightarrow> pvalue \<Rightarrow> pvalue \<Rightarrow> pvalue \<Rightarrow> pvalue \<Rightarrow> params" where
  "combination depth features leaf split trees =
     [(''max_depth'', depth), (''max_features'', features), (''min_samples_leaf'', leaf),
      (''min_samples_split'', split), (''n_estimators'', trees)]"

definition forest :: "params \<Rightarrow> estimator" where
  "forest p = RandomForestClassifier ((''random_state'', PInt 42) # p)"

definition fold_accuracy ::
  "('v, 'g, 'm) sklearn \<Rightarrow> estimator \<Rightarrow> 'v row list \<Rightarrow> label list \<Rightarrow> nat list \<Rightarrow> nat list
     \<Rightarrow> rat option" where
  "fold_accuracy sk est xs ys tr te =
     (case fit sk est (RandomState sk 42) (map (\<lambda>i. xs ! i) tr) (map (\<lambda>i. ys ! i) tr) of
        Inl e \<Rightarrow> None
      | Inr (m, g) \<Rightarrow>
          if te = [] then None
          else Some (of_nat (length (filter (\<lambda>i. predict sk m (xs ! i) = ys ! i) te))
                     / of_nat (length te)))"

definition mean_accuracy ::
  "('v, 'g, 'm) sklearn \<Rightarrow> estimator \<Rightarrow> nat \<Rightarrow> 'v row list \<Rightarrow> label list \<Rightarrow> rat option" where
  "mean_accuracy sk est cv xs ys =
     (if list_all (\<lambda>(tr, te). fold_accuracy sk est xs ys tr te \<noteq> None) (cv_split sk cv ys)
      then Some (np_mean sk (map (\<lambda>(tr, te). the (fold_accuracy sk est xs ys tr te))
                               (cv_split sk cv ys)))
      else None)"

definition score :: "('v, 'g, 'm) sklearn \<Rightarrow> 'm \<Rightarrow> 'v row list \<Rightarrow> label list \<Rightarrow> rat" where
  "score sk m xs ys =
     of_nat (length (filter (\<lambda>(x, y). predict sk m x = y) (zip xs ys))) / of_nat (length ys)"

section \<open>Facts about the table operations\<close>

lemma apply_series_eq:
  assumes "\<And>v e. f v = Inl e \<Longrightarrow> e = E"
  shows "apply_series s f =
           (if \<forall>(i, v) \<in> set s. \<exists>w. f v = Inr w
            then Inr (map (\<lambda>(i, v). (i, case f v of Inr w \<Rightarrow> w | Inl e \<Rightarrow> NA)) s)
            else Inl E)"
  using assms by (induction s) (force split: sum.splits)+

lemma map_of_labelled:
  "distinct (map fst rs) \<Longrightarrow> (i, r) \<in> set rs \<Longrightarrow>
     map_of (map (\<lambda>(i, r). (i, h r)) rs) i = Some (h r)"
  by (induction rs) (auto simp: rev_image_eqI)

lemma series_at_labelled:
  "distinct (map fst rs) \<Longrightarrow> (i, r) \<in> set rs \<Longrightarrow>
     series_at (map (\<lambda>(i, r). (i, h r)) rs) i = h r"
  by (simp add: series_at_def map_of_labelled)

lemma cell_of_update: "cell_of (AList.update c v r) c' = (if c' = c then v else cell_of r c')"
  by (simp add: cell_of_def update_conv')

lemma cell_of_delete: "c' \<noteq> c \<Longrightarrow> cell_of (AList.delete c r) c' = cell_of r c'"
  by (simp add: cell_of_def delete_conv')

lemma cell_of_append_left:
  "c \<notin> fst ` set f \<Longrightarrow> cell_of (r @ f) c = cell_of r c"
  by (auto simp: cell_of_def map_of_eq_None_iff[symmetric] split: option.splits)

lemma compute_descriptors_ok:
  "(\<exists>w. compute_descriptors tk c = Inr w) \<longleftrightarrow> is_text c"
  by (auto simp: compute_descriptors_def is_text_def split: cell.splits option.splits)

lemma compute_descriptors_err: "compute_descriptors tk c = Inl e \<Longrightarrow> e = TypeError"
  by (auto simp: compute_descriptors_def split: cell.splits option.splits)

lemma valid_smiles_ok: "(\<exists>w. valid_smiles tk c = Inr w) \<longleftrightarrow> is_text c"
  by (auto simp: valid_smiles_def is_text_def split: cell.splits)

lemma valid_smiles_err: "valid_smiles tk c = Inl e \<Longrightarrow> e = TypeError"
  by (auto simp: valid_smiles_def split: cell.splits)

lemma feature_cell_NA: "feature_cell tk r \<noteq> NA \<longleftrightarrow> identifier_parses tk r"
  by (auto simp: feature_cell_def identifier_parses_def compute_descriptors_def
      split: cell.splits option.splits)

lemma valid_cell:
  "is_text (cell_of r ''smiles'') \<Longrightarrow>
     (case valid_smiles tk (cell_of r ''smiles'') of Inr w \<Rightarrow> w | Inl e \<Rightarrow> NA)
       = BoolV (identifier_parses tk r)"
  by (auto simp: valid_smiles_def identifier_parses_def is_text_def split: cell.splits)

lemma mask_keep:
  assumes d: "distinct (map fst rs)"
  shows "filter (\<lambda>(i, r). map_of (map (\<lambda>(i, r). (i, BoolV (P r))) rs) i
                            = Some (BoolV True :: 'v cell))
           (map (\<lambda>(i, r). (i, g r)) rs)
         = map (\<lambda>(i, r). (i, g r)) (filter (\<lambda>(i, r). P r) rs)"
proof -
  let ?Q = "\<lambda>i. map_of (map (\<lambda>(i, r). (i, BoolV (P r))) rs) i = Some (BoolV True :: 'v cell)"
  have "filter (\<lambda>(i, r). ?Q i) (map (\<lambda>(i, r). (i, g r)) rs)
      = map (\<lambda>(i, r). (i, g r)) (filter (\<lambda>(i, r). ?Q i) rs)"
    by (simp add: filter_map o_def split_def)
  also have "filter (\<lambda>(i, r). ?Q i) rs = filter (\<lambda>(i, r). P r) rs"
  proof (rule filter_cong[OF refl])
    fix x assume x: "x \<in> set rs"
    obtain i r where [simp]: "x = (i, r)" by (cases x)
    from map_of_labelled[OF d, of i r "\<lambda>r. BoolV (P r)"] x
    show "(case x of (i, r) \<Rightarrow> ?Q i) = (case x of (i, r) \<Rightarrow> P r)" by auto
  qed
  finally show ?thesis .
qed

lemma add_features_eq:
  assumes d: "distinct (map fst (rows df))"
  shows "add_features tk df =
     (if ''smiles'' \<notin> set (columns df) then Inl (KeyError ''smiles'', df)
      else if \<exists>(i, r) \<in> set (rows df). \<not> is_text (cell_of r ''smiles'') then Inl (TypeError, df)
      else Inr \<lparr>columns = (if ''features'' \<in> set (columns df) then columns df
                            else columns df @ [''features'']),
                rows = map (\<lambda>(i, r). (i, AList.update ''features'' (feature_cell tk r) r))
                         (filter (\<lambda>(i, r). identifier_parses tk r) (rows df))\<rparr>)"
proof -
  let ?s = "map (\<lambda>(i, r). (i, cell_of r ''smiles'')) (rows df)"
  let ?f = "map (\<lambda>(i, r). (i, feature_cell tk r)) (rows df)"
  have ap: "apply_series ?s (compute_descriptors tk) =
          (if \<exists>(i, r) \<in> set (rows df). \<not> is_text (cell_of r ''smiles'') then Inl TypeError
           else Inr ?f)"
    by (subst apply_series_eq[where E = TypeError])
       (auto simp: compute_descriptors_err compute_descriptors_ok feature_cell_def split_def o_def)
  have al: "map (\<lambda>(i, r). (i, AList.update ''features'' (series_at ?f i) r)) (rows df)
          = map (\<lambda>(i, r). (i, AList.update ''features'' (feature_cell tk r) r)) (rows df)"
    using d by (auto simp: series_at_labelled)
  have "add_features tk df =
          attempt df (apply_series ?s (compute_descriptors tk)) (\<lambda>f.
            attempt (setitem df ''features'' f) (dropna (setitem df ''features'' f) ''features'') Inr)"
    if "''smiles'' \<in> set (columns df)"
    using that by (simp add: add_features_def getitem_def column_def attempt_def Let_def)
  moreover have "add_features tk df = Inl (KeyError ''smiles'', df)"
    if "''smiles'' \<notin> set (columns df)"
    using that by (simp add: add_features_def getitem_def attempt_def)
  moreover have "attempt (setitem df ''features'' ?f) (dropna (setitem df ''features'' ?f) ''features'') Inr
        = Inr \<lparr>columns = (if ''features'' \<in> set (columns df) then columns df
                            else columns df @ [''features'']),
                rows = map (\<lambda>(i, r). (i, AList.update ''features'' (feature_cell tk r) r))
                         (filter (\<lambda>(i, r). identifier_parses tk r) (rows df))\<rparr>"
    unfolding setitem_def al
    by (auto simp: attempt_def dropna_def filter_map o_def split_def cell_of_update feature_cell_NA)
  ultimately show ?thesis
    unfolding ap by (simp add: attempt_def)
qed

lemma filter_valid_eq:
  assumes d: "distinct (map fst (rows df))"
  shows "filter_valid tk df =
     (if ''smiles'' \<notin> set (columns df) then Inl (KeyError ''smiles'', df)
      else if \<exists>(i, r) \<in> set (rows df). \<not> is_text (cell_of r ''smiles'') then Inl (TypeError, df)
      else if rows df = [] then Inl (KeyError ''valid_smiles'', \<lparr>columns = [], rows = []\<rparr>)
      else Inr \<lparr>columns = removeAll ''valid_smiles'' (columns df),
                rows = map (\<lambda>(i, r). (i, AList.delete ''valid_smiles'' r))
                         (filter (\<lambda>(i, r). identifier_parses tk r) (rows df))\<rparr>)"
proof (cases "''smiles'' \<in> set (columns df) \<and> (\<forall>(i, r) \<in> set (rows df). is_text (cell_of r ''smiles''))")
  case False
  let ?s = "map (\<lambda>(i, r). (i, cell_of r ''smiles'')) (rows df)"
  have "apply_series ?s (valid_smiles tk) = Inl TypeError"
    if "\<exists>(i, r) \<in> set (rows df). \<not> is_text (cell_of r ''smiles'')"
    using that by (subst apply_series_eq[where E = TypeError])
      (auto simp: valid_smiles_err valid_smiles_ok split_def)
  with False show ?thesis
    by (auto simp: filter_valid_def getitem_def column_def attempt_def)
next
  case True
  let ?s = "map (\<lambda>(i, r). (i, cell_of r ''smiles'')) (rows df)"
  let ?v = "map (\<lambda>(i, r). (i, BoolV (identifier_parses tk r))) (rows df)"
  let ?df2 = "\<lparr>columns = (if ''valid_smiles'' \<in> set (columns df) then columns df
                             else columns df @ [''valid_smiles'']),
                 rows = map (\<lambda>(i, r). (i, AList.update ''valid_smiles''
                               (BoolV (identifier_parses tk r)) r)) (rows df)\<rparr>"
  have ap: "apply_series ?s (valid_smiles tk) = Inr ?v"
    using True by (subst apply_series_eq[where E = TypeError])
      (auto simp: valid_smiles_err valid_smiles_ok valid_cell split_def o_def)
  have al: "map (\<lambda>(i, r). (i, AList.update ''valid_smiles'' (series_at ?v i) r)) (rows df)
          = map (\<lambda>(i, r). (i, AList.update ''valid_smiles'' (BoolV (identifier_parses tk r)) r))
              (rows df)"
    using d by (auto simp: series_at_labelled)
  have "filter_valid tk df =
          attempt df (apply_series ?s (valid_smiles tk)) (\<lambda>v.
            let df2 = setitem df ''valid_smiles'' v in
            attempt df2 (getitem df2 ''valid_smiles'') (\<lambda>m.
            let df3 = getitem_series df2 m in
            attempt df3 (drop_columns df3 ''valid_smiles'') Inr))"
    using True by (simp add: filter_valid_def getitem_def column_def attempt_def)
  also have "\<dots> = (let df2 = setitem df ''valid_smiles'' ?v in
            attempt df2 (getitem df2 ''valid_smiles'') (\<lambda>m.
            let df3 = getitem_series df2 m in
            attempt df3 (drop_columns df3 ''valid_smiles'') Inr))"
    by (simp only: ap attempt_def sum.case)
  also have "setitem df ''valid_smiles'' ?v = ?df2"
    by (simp only: setitem_def al)
  also have "(let df2 = ?df2 in
            attempt df2 (getitem df2 ''valid_smiles'') (\<lambda>m.
            let df3 = getitem_series df2 m in
            attempt df3 (drop_columns df3 ''valid_smiles'') Inr))
       = (let df3 = getitem_series ?df2 ?v in attempt df3 (drop_columns df3 ''valid_smiles'') Inr)"
    by (simp add: getitem_def column_def attempt_def cell_of_update split_def o_def)
  finally have run: "filter_valid tk df =
       (let df3 = getitem_series ?df2 ?v in attempt df3 (drop_columns df3 ''valid_smiles'') Inr)" .
  show ?thesis
  proof (cases "rows df = []")
    case empty: True
    then have "getitem_series ?df2 ?v = \<lparr>columns = [], rows = []\<rparr>"
      by (simp add: getitem_series_def take_columns_def)
    with run True empty show ?thesis
      by (auto simp: attempt_def drop_columns_def)
  next
    case some: False
    have "getitem_series ?df2 ?v =
      \<lparr>columns = (if ''valid_smiles'' \<in> set (columns df) then columns df
                   else columns df @ [''valid_smiles'']),
       rows = map (\<lambda>(i, r). (i, AList.update ''valid_smiles'' (BoolV (identifier_parses tk r)) r))
                (filter (\<lambda>(i, r). identifier_parses tk r) (rows df))\<rparr>"
      using some mask_keep[OF d, of "identifier_parses tk"
            "\<lambda>r. AList.update ''valid_smiles'' (BoolV (identifier_parses tk r)) r"]
      by (simp add: getitem_series_def)
    moreover have "(let df3 = \<lparr>columns = (if ''valid_smiles'' \<in> set (columns df) then columns df
                   else columns df @ [''valid_smiles'']),
       rows = map (\<lambda>(i, r). (i, AList.update ''valid_smiles'' (BoolV (identifier_parses tk r)) r))
                (filter (\<lambda>(i, r). identifier_parses tk r) (rows df))\<rparr>
       in attempt df3 (drop_columns df3 ''valid_smiles'') Inr)
     = Inr \<lparr>columns = removeAll ''valid_smiles'' (columns df),
                rows = map (\<lambda>(i, r). (i, AList.delete ''valid_smiles'' r))
                         (filter (\<lambda>(i, r). identifier_parses tk r) (rows df))\<rparr>"
      by (auto simp: attempt_def drop_columns_def split_def o_def delete_update_same)
    ultimately show ?thesis
      using run True some by auto
  qed
qed

lemma row_at_zip:
  "length rs = n \<Longrightarrow> i < n \<Longrightarrow> row_at \<lparr>columns = cs, rows = zip [0..<n] rs\<rparr> i = rs ! i"
  using map_of_zip_nth[of "[0..<n]" rs i] by (simp add: row_at_def)

lemma concat_axis1_aligned:
  assumes "length rs = n" and "length fs = n"
  shows "concat_axis1 \<lparr>columns = ca, rows = zip [0..<n] rs\<rparr>
                      \<lparr>columns = cb, rows = zip [0..<n] fs\<rparr>
         = \<lparr>columns = ca @ cb, rows = zip [0..<n] (map (\<lambda>(r, f). r @ f) (zip rs fs))\<rparr>"
proof -
  have "map (\<lambda>i. (i, row_at \<lparr>columns = ca, rows = zip [0..<n] rs\<rparr> i
                     @ row_at \<lparr>columns = cb, rows = zip [0..<n] fs\<rparr> i)) [0..<n]
        = zip [0..<n] (map (\<lambda>(r, f). r @ f) (zip rs fs))"
    using assms by (intro nth_equalityI) (simp_all add: row_at_zip)
  moreover have "fst ` set (zip [0..<n] rs) = {0..<n}"
    using assms by (simp only: set_map[symmetric] map_fst_zip length_upt diff_zero) simp
  ultimately show ?thesis using assms by (simp add: concat_axis1_def)
qed

lemma assemble_eq:
  assumes c: "''features'' \<in> set (columns df0)"
    and ok: "\<forall>(i, r) \<in> set (rows df0). list_row descriptor_names (cell_of r ''features'') \<noteq> None"
  shows "assemble df0 =
     (if ''p_np'' \<in> set (columns df0)
      then Inr \<lparr>out_df = joined df0, out_X = take_columns (joined df0) descriptor_names,
                out_y = column (joined df0) ''p_np''\<rparr>
      else Inl (KeyError ''p_np'', joined df0))"
proof -
  let ?fs = "map (\<lambda>(i, r). cell_of r ''features'') (rows df0)"
  let ?fdf = "\<lparr>columns = descriptor_names,
               rows = zip [0..<length (rows df0)] (map (\<lambda>(i, r). feature_row r) (rows df0))\<rparr>"
  have tl: "tolist (column df0 ''features'') = ?fs"
    by (simp add: tolist_def column_def split_def o_def)
  have fr: "map ((\<lambda>c. the (list_row descriptor_names c)) \<circ> (\<lambda>(i, r). cell_of r ''features''))
              (rows df0) = map (\<lambda>(i, r). feature_row r) (rows df0)"
    using ok by (auto simp: feature_row_def)
  have fdf: "DataFrame ?fs descriptor_names = Inr ?fdf"
    using ok by (auto simp: DataFrame_def fr)
  have df1: "concat_axis1 (reset_index df0) ?fdf = joined df0"
  proof -
    have "reset_index df0 = \<lparr>columns = columns df0,
             rows = zip [0..<length (rows df0)] (map snd (rows df0))\<rparr>"
      by (simp add: reset_index_def)
    moreover have "map (\<lambda>(r, f). r @ f) (zip (map snd (rows df0))
                      (map (\<lambda>(i, r). feature_row r) (rows df0)))
                 = map (\<lambda>(i, r). r @ feature_row r) (rows df0)"
      by (simp add: zip_map_map split_def) (simp add: zip_same_conv_map)
    ultimately show ?thesis
      by (simp add: concat_axis1_aligned joined_def)
  qed
  have x: "getitem_list (joined df0) descriptor_names
             = Inr (take_columns (joined df0) descriptor_names)"
    by (simp add: getitem_list_def joined_def)
  have y: "getitem (joined df0) ''p_np'' =
             (if ''p_np'' \<in> set (columns df0) then Inr (column (joined df0) ''p_np'')
              else Inl (KeyError ''p_np''))"
  proof -
    have "columns (joined df0) = columns df0 @ descriptor_names" by (simp add: joined_def)
    then show ?thesis by (simp add: getitem_def descriptor_names_def)
  qed
  have g: "getitem df0 ''features'' = Inr (column df0 ''features'')"
    using c by (simp add: getitem_def)
  show ?thesis
    unfolding assemble_def
    by (simp add: g tl attempt_def fdf df1 x y Let_def)
qed

lemma parses_text: "identifier_parses tk r \<Longrightarrow> is_text (cell_of r ''smiles'')"
  by (auto simp: identifier_parses_def is_text_def split: cell.splits)

lemma parses_present: "identifier_parses tk r \<Longrightarrow> cell_of r ''smiles'' \<noteq> NA"
  by (auto simp: identifier_parses_def split: cell.splits)

lemma parses_update [simp]:
  "identifier_parses tk (AList.update ''features'' v r) = identifier_parses tk r"
  by (simp add: identifier_parses_def cell_of_update)

lemma featured_eq:
  assumes d: "distinct (map fst (rows csv))"
  shows "bind (clean csv) (add_features tk) =
     (if ''smiles'' \<notin> set (columns csv) then Inl (KeyError ''smiles'', csv)
      else if bad_identifier csv then Inl (TypeError, present csv)
      else Inr (with_features tk csv))"
proof (cases "''smiles'' \<in> set (columns csv)")
  case False
  then show ?thesis by (simp add: clean_def dropna_def attempt_def bind_def)
next
  case True
  have cl: "clean csv = Inr (present csv)"
    using True by (simp add: clean_def dropna_def attempt_def present_def)
  have d1: "distinct (map fst (rows (present csv)))"
    using d by (simp add: distinct_map_filter present_def)
  have bad: "(\<exists>(i, r) \<in> set (rows (present csv)). \<not> is_text (cell_of r ''smiles''))
               \<longleftrightarrow> bad_identifier csv"
    by (auto simp: bad_identifier_def present_def)
  have keep: "filter (\<lambda>(i, r). identifier_parses tk r) (rows (present csv)) = survivors tk csv"
    unfolding survivors_def present_def by (auto intro!: filter_cong dest: parses_present)
  have c1: "columns (present csv) = columns csv"
    by (simp add: present_def)
  have "bind (clean csv) (add_features tk) = add_features tk (present csv)"
    by (simp add: cl bind_def)
  then show ?thesis
    using True bad unfolding add_features_eq[OF d1] keep c1 with_features_def
    by simp
qed

lemma filter_valid_with_features:
  assumes d: "distinct (map fst (rows csv))" and c: "''smiles'' \<in> set (columns csv)"
  shows "filter_valid tk (with_features tk csv) =
           (if survivors tk csv = []
            then Inl (KeyError ''valid_smiles'', \<lparr>columns = [], rows = []\<rparr>)
            else Inr (extracted tk csv))"
proof -
  let ?df2 = "with_features tk csv"
  have d2: "distinct (map fst (rows ?df2))"
    using d by (simp add: with_features_def survivors_def distinct_map_filter split_def o_def)
  have alltext: "\<not> (\<exists>(i, r) \<in> set (rows ?df2). \<not> is_text (cell_of r ''smiles''))"
    by (auto simp: with_features_def survivors_def cell_of_update dest: parses_text)
  have again: "filter (\<lambda>(i, r). identifier_parses tk r) (rows ?df2) = rows ?df2"
    by (auto simp: with_features_def survivors_def filter_id_conv)
  have c2: "''smiles'' \<in> set (columns ?df2)"
    using c by (simp add: with_features_def)
  have e: "rows ?df2 = [] \<longleftrightarrow> survivors tk csv = []"
    by (simp add: with_features_def)
  show ?thesis
    unfolding filter_valid_eq[OF d2] again e using c2 alltext
    by (auto simp: extracted_def with_features_def kept_row_def split_def o_def)
qed

lemma extraction_eq:
  assumes d: "distinct (map fst (rows csv))"
  shows "extraction tk csv =
     (if ''smiles'' \<notin> set (columns csv) then Inl (KeyError ''smiles'', csv)
      else if bad_identifier csv then Inl (TypeError, present csv)
      else if survivors tk csv = []
           then Inl (KeyError ''valid_smiles'', \<lparr>columns = [], rows = []\<rparr>)
      else Inr (extracted tk csv))"
proof -
  have "extraction tk csv = bind (bind (clean csv) (add_features tk)) (filter_valid tk)"
    by (simp add: extraction_def bind_def split: sum.splits)
  then show ?thesis
    unfolding featured_eq[OF d]
    by (simp add: bind_def filter_valid_with_features[OF d])
qed

lemma feature_cell_parses:
  "identifier_parses tk r \<Longrightarrow> \<exists>f. list_row descriptor_names (feature_cell tk r) = Some f"
  by (auto simp: identifier_parses_def feature_cell_def compute_descriptors_def
        descriptor_names_def split: cell.splits option.splits)

lemma assemble_with_features:
  "assemble (with_features tk csv) =
     (if ''p_np'' \<in> set (columns csv)
      then Inr \<lparr>out_df = joined (with_features tk csv),
                out_X = take_columns (joined (with_features tk csv)) descriptor_names,
                out_y = column (joined (with_features tk csv)) ''p_np''\<rparr>
      else Inl (KeyError ''p_np'', joined (with_features tk csv)))"
proof -
  have c: "''features'' \<in> set (columns (with_features tk csv))"
    by (simp add: with_features_def)
  have ok: "\<forall>(i, r) \<in> set (rows (with_features tk csv)).
              list_row descriptor_names (cell_of r ''features'') \<noteq> None"
    by (auto simp: with_features_def survivors_def cell_of_update feature_cell_parses)
  have p: "''p_np'' \<in> set (columns (with_features tk csv)) \<longleftrightarrow> ''p_np'' \<in> set (columns csv)"
    by (simp add: with_features_def)
  show ?thesis unfolding assemble_eq[OF c ok] p ..
qed

lemma assemble_extracted:
  "assemble (extracted tk csv) =
     (if ''p_np'' \<in> set (columns csv)
      then Inr \<lparr>out_df = joined (extracted tk csv),
                out_X = take_columns (joined (extracted tk csv)) descriptor_names,
                out_y = column (joined (extracted tk csv)) ''p_np''\<rparr>
      else Inl (KeyError ''p_np'', joined (extracted tk csv)))"
proof -
  have c: "''features'' \<in> set (columns (extracted tk csv))"
    by (simp add: extracted_def)
  have ok: "\<forall>(i, r) \<in> set (rows (extracted tk csv)).
              list_row descriptor_names (cell_of r ''features'') \<noteq> None"
    by (auto simp: extracted_def kept_row_def survivors_def cell_of_update cell_of_delete
          feature_cell_parses)
  have p: "''p_np'' \<in> set (columns (extracted tk csv)) \<longleftrightarrow> ''p_np'' \<in> set (columns csv)"
    by (simp add: extracted_def)
  show ?thesis unfolding assemble_eq[OF c ok] p ..
qed

lemma prepare_eq:
  assumes d: "distinct (map fst (rows csv))"
  shows "prepare tk csv =
     (if ''smiles'' \<notin> set (columns csv) then Inl (KeyError ''smiles'', csv)
      else if bad_identifier csv then Inl (TypeError, present csv)
      else if survivors tk csv = []
           then Inl (KeyError ''valid_smiles'', \<lparr>columns = [], rows = []\<rparr>)
      else if ''p_np'' \<notin> set (columns csv) then Inl (KeyError ''p_np'', joined (extracted tk csv))
      else Inr \<lparr>out_df = joined (extracted tk csv),
                out_X = take_columns (joined (extracted tk csv)) descriptor_names,
                out_y = column (joined (extracted tk csv)) ''p_np''\<rparr>)"
  unfolding prepare_def extraction_eq[OF d]
  by (simp add: bind_def assemble_extracted)

lemma prepare_without_filter_eq:
  assumes d: "distinct (map fst (rows csv))"
  shows "prepare_without_filter tk csv =
     (if ''smiles'' \<notin> set (columns csv) then Inl (KeyError ''smiles'', csv)
      else if bad_identifier csv then Inl (TypeError, present csv)
      else if ''p_np'' \<notin> set (columns csv)
           then Inl (KeyError ''p_np'', joined (with_features tk csv))
      else Inr \<lparr>out_df = joined (with_features tk csv),
                out_X = take_columns (joined (with_features tk csv)) descriptor_names,
                out_y = column (joined (with_features tk csv)) ''p_np''\<rparr>)"
proof -
  have "prepare_without_filter tk csv = bind (bind (clean csv) (add_features tk)) assemble"
    by (simp add: prepare_without_filter_def bind_def split: sum.splits)
  then show ?thesis
    unfolding featured_eq[OF d]
    by (simp add: bind_def assemble_with_features)
qed

lemma from_csv_distinct: "from_csv csv \<Longrightarrow> distinct (map fst (rows csv))"
  by (simp add: from_csv_def)

lemma list_all2_numbered:
  "list_all2 (\<lambda>(k, a) x. P a x) (zip [0..<length xs] (map g xs)) xs \<longleftrightarrow> (\<forall>x \<in> set xs. P (g x) x)"
  by (fastforce simp: list_all2_conv_all_nth in_set_conv_nth)

lemma list_row_Some:
  "list_row names c = Some r \<Longrightarrow>
     \<exists>vs. c = ListV vs \<and> length vs = length names \<and> r = zip names (map NumV vs)"
  by (cases c) (auto split: if_splits)

lemma feature_row_keys:
  assumes "(k, v) \<in> set (feature_row r)"
  shows "k \<in> set descriptor_names"
proof (cases "list_row descriptor_names (cell_of r ''features'')")
  case None
  with assms show ?thesis by (simp add: feature_row_def)
next
  case (Some f)
  from list_row_Some[OF Some] assms Some show ?thesis
    by (auto simp: feature_row_def dest: set_zip_leftD)
qed

lemma cell_of_joined_row:
  "c \<notin> set descriptor_names \<Longrightarrow> cell_of (a @ feature_row a) c = cell_of a c"
  by (rule cell_of_append_left) (auto dest: feature_row_keys)

lemma cell_of_kept_row:
  "c \<noteq> ''valid_smiles'' \<Longrightarrow>
     cell_of (kept_row tk r) c = (if c = ''features'' then feature_cell tk r else cell_of r c)"
  by (simp add: kept_row_def cell_of_delete cell_of_update)

section \<open>Claims\<close>

text \<open>
  C1. When the script reaches line 46, the table, the feature matrix X and the label vector y
  hold one row per input record whose identifier is a string that parses, in input order
  and renumbered from 0, and nothing else: a record whose identifier fails to parse is not
  among them. Every row still carries its own identifier and label, and its feature cell is
  defined, so no undefined feature value reaches dataset assembly.
\<close>

theorem unparsable_records_absent:
  assumes csv: "from_csv csv" and run: "prepare tk csv = Inr d"
  shows "(\<forall>(i, r) \<in> set (rows csv).
            (\<exists>s. cell_of r ''smiles'' = Str s \<and> MolFromSmiles tk s = None)
              \<longrightarrow> (i, r) \<notin> set (survivors tk csv))
       \<and> map fst (rows (out_X d)) = [0..<length (survivors tk csv)]
       \<and> out_y d = zip [0..<length (survivors tk csv)]
                      (map (\<lambda>(i, r). cell_of r ''p_np'') (survivors tk csv))
       \<and> list_all2 (\<lambda>(k, a) (i, r). cell_of a ''smiles'' = cell_of r ''smiles''
                                   \<and> cell_of a ''p_np'' = cell_of r ''p_np''
                                   \<and> cell_of a ''features'' \<noteq> NA)
            (rows (out_df d)) (survivors tk csv)"
proof -
  let ?J = "joined (extracted tk csv)"
  from run have d: "d = \<lparr>out_df = ?J, out_X = take_columns ?J descriptor_names,
                         out_y = column ?J ''p_np''\<rparr>"
    unfolding prepare_eq[OF from_csv_distinct[OF csv]] by (simp split: if_splits)
  have J: "rows ?J = zip [0..<length (survivors tk csv)]
             (map (\<lambda>(i, r). kept_row tk r @ feature_row (kept_row tk r)) (survivors tk csv))"
    by (simp add: joined_def extracted_def split_def o_def)
  have 1: "\<forall>(i, r) \<in> set (rows csv).
            (\<exists>s. cell_of r ''smiles'' = Str s \<and> MolFromSmiles tk s = None)
              \<longrightarrow> (i, r) \<notin> set (survivors tk csv)"
    by (auto simp: survivors_def identifier_parses_def)
  have 2: "map fst (rows (out_X d)) = [0..<length (survivors tk csv)]"
    by (simp add: d take_columns_def J split_def o_def)
  have 3: "out_y d = zip [0..<length (survivors tk csv)]
                      (map (\<lambda>(i, r). cell_of r ''p_np'') (survivors tk csv))"
    by (simp add: d column_def J zip_map2 split_def o_def cell_of_joined_row cell_of_kept_row
          descriptor_names_def)
  have 4: "list_all2 (\<lambda>(k, a) (i, r). cell_of a ''smiles'' = cell_of r ''smiles''
                                   \<and> cell_of a ''p_np'' = cell_of r ''p_np''
                                   \<and> cell_of a ''features'' \<noteq> NA)
            (rows (out_df d)) (survivors tk csv)"
    unfolding d dataset.simps J
    by (subst list_all2_numbered)
       (auto simp: cell_of_joined_row cell_of_kept_row descriptor_names_def feature_cell_NA
          survivors_def)
  from 1 2 3 4 show ?thesis by blast
qed

theorem unparsable_records_absent_witness:
  "from_csv short_csv \<and>
   (\<exists>d. prepare toy short_csv = Inr d \<and>
        map fst (rows (out_X d)) = [0, 1] \<and>
        out_y d = [(0, IntV 1), (1, IntV 1)] \<and>
        map (\<lambda>(k, a). cell_of a ''smiles'') (rows (out_df d)) = [Str ''CCO'', Str ''CN''])"
proof -
  have csv: "from_csv short_csv"
    by code_simp
  have run: "prepare toy short_csv = Inr (projr (prepare toy short_csv))"
    by code_simp
  have who: "survivors toy short_csv =
               [(0, [(''p_np'', IntV 1), (''smiles'', Str ''CCO'')]),
                (3, [(''p_np'', IntV 1), (''smiles'', Str ''CN'')])]"
    by code_simp
  from unparsable_records_absent[OF csv run]
  have "map fst (rows (out_X (projr (prepare toy short_csv)))) = [0, 1]"
    and "out_y (projr (prepare toy short_csv)) = [(0, IntV 1), (1, IntV 1)]"
    and "map (\<lambda>(k, a). cell_of a ''smiles'') (rows (out_df (projr (prepare toy short_csv))))
           = [Str ''CCO'', Str ''CN'']"
    unfolding who
    by (auto simp: cell_of_def upt_rec list_all2_Cons2)
  with csv run show ?thesis by (intro conjI exI[of _ "projr (prepare toy short_csv)"])
qed

lemma filter_key_delete:
  "n \<noteq> k \<Longrightarrow> filter (\<lambda>kv. fst kv = n) (AList.delete k a) = filter (\<lambda>kv. fst kv = n) a"
  by (induction a) auto

lemma filter_removeAll_other:
  "n \<noteq> k \<Longrightarrow> filter (\<lambda>c. c = n) (removeAll k cs) = filter (\<lambda>c. c = n) cs"
  by (induction cs) auto

lemma filter_label_absent: "n \<notin> set cs \<Longrightarrow> filter (\<lambda>c. c = n) cs = []"
  by (induction cs) auto

lemma filter_key_absent:
  "n \<notin> fst ` set a \<Longrightarrow> filter (\<lambda>kv. fst kv = n) a = []"
  by (induction a) auto

lemma feature_row_delete [simp]:
  "feature_row (AList.delete ''valid_smiles'' a) = feature_row a"
  by (simp add: feature_row_def cell_of_delete)

lemma feature_row_parses:
  assumes "cell_of r ''smiles'' = Str s" and "MolFromSmiles tk s = Some mol"
  shows "feature_row (kept_row tk r) =
           [(''MolWt'', NumV (MolWt tk mol)), (''MolLogP'', NumV (MolLogP tk mol)),
            (''NumHDonors'', NumV (NumHDonors tk mol)),
            (''NumHAcceptors'', NumV (NumHAcceptors tk mol)), (''TPSA'', NumV (TPSA tk mol))]"
  using assms
  by (simp add: feature_row_def cell_of_kept_row feature_cell_def compute_descriptors_def
        descriptor_names_def)

lemma parses_cases:
  "identifier_parses tk r \<longleftrightarrow> (\<exists>s mol. cell_of r ''smiles'' = Str s \<and> MolFromSmiles tk s = Some mol)"
  by (auto simp: identifier_parses_def split: cell.splits)

lemma take_five:
  assumes "\<forall>n \<in> set descriptor_names. n \<notin> fst ` set a"
  shows "concat (map (\<lambda>n. filter (\<lambda>kv. fst kv = n)
            (a @ [(''MolWt'', v1), (''MolLogP'', v2), (''NumHDonors'', v3),
                  (''NumHAcceptors'', v4), (''TPSA'', v5)])) descriptor_names)
         = [(''MolWt'', v1), (''MolLogP'', v2), (''NumHDonors'', v3),
            (''NumHAcceptors'', v4), (''TPSA'', v5)]"
  using assms by (simp add: descriptor_names_def filter_key_absent)

lemma kept_row_keys:
  "set (map fst (kept_row tk r)) \<subseteq> insert ''features'' (set (map fst r))"
  by (auto simp: kept_row_def delete_keys update_keys split: if_splits)

lemma list_all2_projected:
  "list_all2 (\<lambda>(k, x) (k', a). k = k' \<and> P x a) (map (\<lambda>(k, a). (k, g a)) xs) xs
     \<longleftrightarrow> (\<forall>(k, a) \<in> set xs. P (g a) a)"
  by (auto simp: list_all2_map1 list_all2_same)

text \<open>
  For an identifier that parses, \<^verbatim>\<open>compute_descriptors\<close> returns the list
  of the five descriptors in the order weight, lipophilicity, donors, acceptors, polar
  surface area. When no column of the input already carries one of the five descriptor
  names, X has exactly the five named columns in that order, and each row of X consists
  of exactly the five descriptors of the molecule in the same row of the table.
\<close>

lemma feature_rows_are_the_five_descriptors:
  assumes csv: "from_csv csv"
    and fresh: "set (columns csv) \<inter> set descriptor_names = {}"
    and run: "prepare tk csv = Inr d"
  shows "(\<forall>s mol. MolFromSmiles tk s = Some mol \<longrightarrow>
            compute_descriptors tk (Str s) =
              Inr (ListV [MolWt tk mol, MolLogP tk mol, NumHDonors tk mol,
                          NumHAcceptors tk mol, TPSA tk mol]))
       \<and> columns (out_X d) = [''MolWt'', ''MolLogP'', ''NumHDonors'', ''NumHAcceptors'', ''TPSA'']
       \<and> list_all2 (\<lambda>(k, x) (k', a). k = k' \<and>
              (\<exists>s mol. cell_of a ''smiles'' = Str s \<and> MolFromSmiles tk s = Some mol \<and>
                 x = [(''MolWt'', NumV (MolWt tk mol)), (''MolLogP'', NumV (MolLogP tk mol)),
                      (''NumHDonors'', NumV (NumHDonors tk mol)),
                      (''NumHAcceptors'', NumV (NumHAcceptors tk mol)),
                      (''TPSA'', NumV (TPSA tk mol))]))
            (rows (out_X d)) (rows (out_df d))"
proof -
  let ?J = "joined (extracted tk csv)"
  let ?sel = "\<lambda>a. concat (map (\<lambda>n. filter (\<lambda>kv. fst kv = n) a) descriptor_names)"
  from run have d: "d = \<lparr>out_df = ?J, out_X = take_columns ?J descriptor_names,
                         out_y = column ?J ''p_np''\<rparr>"
    unfolding prepare_eq[OF from_csv_distinct[OF csv]] by (simp split: if_splits)
  have 1: "\<forall>s mol. MolFromSmiles tk s = Some mol \<longrightarrow>
            compute_descriptors tk (Str s) =
              Inr (ListV [MolWt tk mol, MolLogP tk mol, NumHDonors tk mol,
                          NumHAcceptors tk mol, TPSA tk mol])"
    by (simp add: compute_descriptors_def)
  have cols: "\<forall>n \<in> set descriptor_names. n \<notin> set (columns csv) \<and> n \<noteq> ''features''"
    using fresh by (auto simp: descriptor_names_def)
  have "columns (out_X d) = descriptor_names"
    using cols
    by (simp add: d take_columns_def joined_def extracted_def descriptor_names_def
          filter_removeAll_other filter_label_absent)
  then have 2: "columns (out_X d)
                  = [''MolWt'', ''MolLogP'', ''NumHDonors'', ''NumHAcceptors'', ''TPSA'']"
    by (simp add: descriptor_names_def)
  have X: "rows (out_X d) = map (\<lambda>(k, a). (k, ?sel a)) (rows ?J)"
    by (simp add: d take_columns_def)
  have each: "\<exists>s mol. cell_of a ''smiles'' = Str s \<and> MolFromSmiles tk s = Some mol \<and>
                ?sel a = [(''MolWt'', NumV (MolWt tk mol)), (''MolLogP'', NumV (MolLogP tk mol)),
                      (''NumHDonors'', NumV (NumHDonors tk mol)),
                      (''NumHAcceptors'', NumV (NumHAcceptors tk mol)),
                      (''TPSA'', NumV (TPSA tk mol))]"
    if "(k, a) \<in> set (rows ?J)" for k a
  proof -
    from that obtain i r where ir: "(i, r) \<in> set (survivors tk csv)"
      and a: "a = kept_row tk r @ feature_row (kept_row tk r)"
      by (auto simp: joined_def extracted_def split_def o_def dest!: set_zip_rightD)
    from ir have "(i, r) \<in> set (rows csv)" and "identifier_parses tk r"
      by (auto simp: survivors_def)
    then obtain s mol where s: "cell_of r ''smiles'' = Str s" "MolFromSmiles tk s = Some mol"
      and keys: "map fst r = columns csv"
      using csv by (auto simp: parses_cases from_csv_def)
    have "\<forall>n \<in> set descriptor_names. n \<notin> fst ` set (kept_row tk r)"
    proof (intro ballI notI)
      fix n assume n: "n \<in> set descriptor_names" and "n \<in> fst ` set (kept_row tk r)"
      then have "n \<in> set (map fst (kept_row tk r))" by simp
      with kept_row_keys[of tk r] have "n = ''features'' \<or> n \<in> set (map fst r)" by blast
      with cols keys n show False by auto
    qed
    then have e: "?sel a = [(''MolWt'', NumV (MolWt tk mol)), (''MolLogP'', NumV (MolLogP tk mol)),
                      (''NumHDonors'', NumV (NumHDonors tk mol)),
                      (''NumHAcceptors'', NumV (NumHAcceptors tk mol)),
                      (''TPSA'', NumV (TPSA tk mol))]"
      unfolding a feature_row_parses[OF s] by (rule take_five)
    have c: "cell_of a ''smiles'' = Str s"
      by (simp add: a cell_of_joined_row cell_of_kept_row descriptor_names_def s)
    from c s(2) e show ?thesis by blast
  qed
  have 3: "list_all2 (\<lambda>(k, x) (k', a). k = k' \<and>
              (\<exists>s mol. cell_of a ''smiles'' = Str s \<and> MolFromSmiles tk s = Some mol \<and>
                 x = [(''MolWt'', NumV (MolWt tk mol)), (''MolLogP'', NumV (MolLogP tk mol)),
                      (''NumHDonors'', NumV (NumHDonors tk mol)),
                      (''NumHAcceptors'', NumV (NumHAcceptors tk mol)),
                      (''TPSA'', NumV (TPSA tk mol))]))
            (rows (out_X d)) (rows (out_df d))"
    unfolding X unfolding d dataset.simps
    by (subst list_all2_projected) (use each in blast)
  from 1 2 3 show ?thesis by blast
qed

lemma feature_rows_are_the_five_descriptors_example:
  "from_csv short_csv \<and> set (columns short_csv) \<inter> set descriptor_names = {} \<and>
   (\<exists>d. prepare toy short_csv = Inr d \<and>
        columns (out_X d) = [''MolWt'', ''MolLogP'', ''NumHDonors'', ''NumHAcceptors'', ''TPSA''] \<and>
        length (rows (out_X d)) = length (rows (out_df d)))"
proof -
  have csv: "from_csv short_csv"
    by code_simp
  have fresh: "set (columns short_csv) \<inter> set descriptor_names = {}"
    by code_simp
  have run: "prepare toy short_csv = Inr (projr (prepare toy short_csv))"
    by code_simp
  from feature_rows_are_the_five_descriptors[OF csv fresh run]
  have "columns (out_X (projr (prepare toy short_csv)))
          = [''MolWt'', ''MolLogP'', ''NumHDonors'', ''NumHAcceptors'', ''TPSA'']"
    and "length (rows (out_X (projr (prepare toy short_csv))))
          = length (rows (out_df (projr (prepare toy short_csv))))"
    by (auto dest: list_all2_lengthD)
  with csv fresh run show ?thesis
    by (intro conjI exI[of _ "projr (prepare toy short_csv)"])
qed

text \<open>
  C2. The claim fails on an input that already has a column named \<^verbatim>\<open>TPSA\<close>: the
  concatenation of line 42 keeps both columns of that name, \<^verbatim>\<open>df[descriptor_names]\<close>
  at line 45 selects both, and the row of X has six entries, one of them the missing value
  of the input.
\<close>

theorem same_named_input_column_gives_six_entries:
  "map_sum fst out_X (prepare toy clash_csv) =
     Inr \<lparr>columns = [''MolWt'', ''MolLogP'', ''NumHDonors'', ''NumHAcceptors'', ''TPSA'', ''TPSA''],
          rows = [(0, [(''MolWt'', NumV 40), (''MolLogP'', NumV 1), (''NumHDonors'', NumV 1),
                       (''NumHAcceptors'', NumV 1), (''TPSA'', NA), (''TPSA'', NumV 20)])]\<rparr>"
  by code_simp

text \<open>
  An identifier s that the parser rejects, in a table whose identifier column holds strings
  or missing values: \<^verbatim>\<open>compute_descriptors\<close> returns None for s without raising, and
  the lambda of line 35 returns False. Either filter, run on the cleaned table that
  contains the record, returns a table without it and raises nothing. The whole extraction
  stage does so too when at least one record of the table has an identifier that parses.
\<close>

lemma rejected_identifier_removed:
  assumes bad: "MolFromSmiles tk s = None"
    and d: "distinct (map fst (rows csv))"
    and c: "''smiles'' \<in> set (columns csv)"
    and strings: "\<forall>(j, q) \<in> set (rows csv).
                    cell_of q ''smiles'' = NA \<or> (\<exists>t. cell_of q ''smiles'' = Str t)"
    and row: "(i, r) \<in> set (rows csv)" "cell_of r ''smiles'' = Str s"
  shows "compute_descriptors tk (Str s) = Inr NA
       \<and> valid_smiles tk (Str s) = Inr (BoolV False)
       \<and> (\<exists>df0 df1. clean csv = Inr df0 \<and> (i, r) \<in> set (rows df0) \<and>
                     add_features tk df0 = Inr df1 \<and> i \<notin> fst ` set (rows df1))
       \<and> (\<exists>df0 df2. clean csv = Inr df0 \<and> (i, r) \<in> set (rows df0) \<and>
                     filter_valid tk df0 = Inr df2 \<and> i \<notin> fst ` set (rows df2))
       \<and> (survivors tk csv \<noteq> [] \<longrightarrow>
            (\<exists>df3. extraction tk csv = Inr df3 \<and> i \<notin> fst ` set (rows df3)))"
proof -
  have 1: "compute_descriptors tk (Str s) = Inr NA"
    using bad by (simp add: compute_descriptors_def)
  have 2: "valid_smiles tk (Str s) = Inr (BoolV False)"
    using bad by (simp add: valid_smiles_def)
  have cl: "clean csv = Inr (present csv)"
    using c by (simp add: clean_def dropna_def attempt_def present_def)
  have d0: "distinct (map fst (rows (present csv)))"
    using d by (simp add: present_def distinct_map_filter)
  have c0: "''smiles'' \<in> set (columns (present csv))"
    using c by (simp add: present_def)
  have r0: "(i, r) \<in> set (rows (present csv))"
    using row by (simp add: present_def)
  have alltext: "\<not> (\<exists>(j, q) \<in> set (rows (present csv)). \<not> is_text (cell_of q ''smiles''))"
    using strings by (fastforce simp: is_text_def present_def)
  have good: "\<not> bad_identifier csv"
    using strings by (fastforce simp: bad_identifier_def is_text_def)
  have unique: "q = r" if "(i, q) \<in> set (rows csv)" for q
    using d row(1) that by (meson eq_key_imp_eq_value)
  have no: "\<not> identifier_parses tk r"
    using row(2) bad by (simp add: identifier_parses_def)
  have gone: "i \<notin> fst ` set (filter (\<lambda>(j, q). identifier_parses tk q) (rows (present csv)))"
    using unique no by (auto simp: present_def)
  have gone': "i \<notin> fst ` set (survivors tk csv)"
    using unique no by (auto simp: survivors_def)
  have 3: "\<exists>df1. add_features tk (present csv) = Inr df1 \<and> i \<notin> fst ` set (rows df1)"
    unfolding add_features_eq[OF d0] using c0 alltext gone
    by (simp add: image_image split_def)
  have 4: "\<exists>df2. filter_valid tk (present csv) = Inr df2 \<and> i \<notin> fst ` set (rows df2)"
    unfolding filter_valid_eq[OF d0] using c0 alltext gone r0
    by (auto simp: image_image split_def)
  have 5: "\<exists>df3. extraction tk csv = Inr df3 \<and> i \<notin> fst ` set (rows df3)"
    if "survivors tk csv \<noteq> []"
    unfolding extraction_eq[OF d] using c good gone' that
    by (simp add: extracted_def image_image split_def)
  from 1 2 3 4 5 cl r0 show ?thesis by blast
qed

lemma rejected_identifier_removed_example:
  "MolFromSmiles toy ''C(x'' = None \<and> distinct (map fst (rows short_csv)) \<and>
   ''smiles'' \<in> set (columns short_csv) \<and>
   (2, [(''p_np'', IntV 0), (''smiles'', Str ''C(x'')]) \<in> set (rows short_csv) \<and>
   compute_descriptors toy (Str ''C(x'') = Inr NA \<and>
   (\<exists>df3. extraction toy short_csv = Inr df3 \<and> 2 \<notin> fst ` set (rows df3))"
proof -
  have bad: "MolFromSmiles toy ''C(x'' = None"
    by code_simp
  have d: "distinct (map fst (rows short_csv))"
    by code_simp
  have c: "''smiles'' \<in> set (columns short_csv)"
    by code_simp
  have rws: "rows short_csv =
      [(0, [(''p_np'', IntV 1), (''smiles'', Str ''CCO'')]),
       (1, [(''p_np'', IntV 0), (''smiles'', NA)]),
       (2, [(''p_np'', IntV 0), (''smiles'', Str ''C(x'')]),
       (3, [(''p_np'', IntV 1), (''smiles'', Str ''CN'')])]"
    by code_simp
  have strings: "\<forall>(j, q) \<in> set (rows short_csv).
       cell_of q ''smiles'' = NA \<or> (\<exists>t. cell_of q ''smiles'' = Str t)"
    unfolding rws by (simp add: cell_of_def)
  have row: "(2, [(''p_np'', IntV 0), (''smiles'', Str ''C(x'')]) \<in> set (rows short_csv)"
    unfolding rws by simp
  have idcell: "cell_of [(''p_np'', IntV 0), (''smiles'', Str ''C(x'')] ''smiles'' = Str ''C(x''"
    by (simp add: cell_of_def)
  have some: "survivors toy short_csv \<noteq> []"
    by code_simp
  from rejected_identifier_removed[OF bad d c strings row idcell] some
  have "compute_descriptors toy (Str ''C(x'') = Inr NA"
    and "\<exists>df3. extraction toy short_csv = Inr df3 \<and> 2 \<notin> fst ` set (rows df3)"
    by blast+
  with bad d c row show ?thesis by blast
qed

text \<open>
  C8. The claim fails on a table in which no identifier parses, here a single record with a
  rejected identifier: \<^verbatim>\<open>compute_descriptors\<close> returns None and line 32 drops the
  record, but on the now empty table line 36 selects no columns instead of masking rows,
  and line 37 raises KeyError for \<^verbatim>\<open>valid_smiles\<close>: an unhandled error escapes the
  extraction stage.
\<close>

theorem only_invalid_identifiers_raise:
  "extraction toy only_invalid_csv = Inl (KeyError ''valid_smiles'', \<lparr>columns = [], rows = []\<rparr>)"
  by code_simp

lemma extracted_rows:
  "rows (extracted tk csv) =
     map (\<lambda>(i, r). (i, AList.delete ''valid_smiles'' r)) (rows (with_features tk csv))"
  by (simp add: extracted_def with_features_def kept_row_def split_def o_def)

lemma extracted_same:
  assumes csv: "from_csv csv" and v: "''valid_smiles'' \<notin> set (columns csv)"
  shows "extracted tk csv = with_features tk csv"
proof -
  have "kept_row tk r = AList.update ''features'' (feature_cell tk r) r"
    if "(i, r) \<in> set (survivors tk csv)" for i r
  proof -
    from that csv have "map fst r = columns csv"
      by (auto simp: survivors_def from_csv_def)
    with v have "''valid_smiles'' \<notin> set (map fst (AList.update ''features'' (feature_cell tk r) r))"
      by (auto simp: update_keys)
    then show ?thesis
      unfolding kept_row_def by (intro delete_id) simp
  qed
  then have "map (\<lambda>(i, r). (i, kept_row tk r)) (survivors tk csv)
           = map (\<lambda>(i, r). (i, AList.update ''features'' (feature_cell tk r) r)) (survivors tk csv)"
    by auto
  with v show ?thesis
    by (simp add: extracted_def with_features_def)
qed

lemma numbered_cong:
  "(\<And>x. x \<in> set xs \<Longrightarrow> h (g x) = h (g' x)) \<Longrightarrow>
     map (\<lambda>p. (fst p, h (snd p))) (zip [0..<length xs] (map g xs))
       = map (\<lambda>p. (fst p, h (snd p))) (zip [0..<length xs] (map g' xs))"
  by (rule nth_equalityI) auto

lemma take_columns_extracted:
  "take_columns (joined (extracted tk csv)) descriptor_names
     = take_columns (joined (with_features tk csv)) descriptor_names"
proof -
  have n: "\<forall>n \<in> set descriptor_names. n \<noteq> ''valid_smiles''"
    by (simp add: descriptor_names_def)
  have "concat (map (\<lambda>n. filter (\<lambda>c. c = n) (columns (joined (extracted tk csv)))) descriptor_names)
      = concat (map (\<lambda>n. filter (\<lambda>c. c = n) (columns (joined (with_features tk csv)))) descriptor_names)"
    by (rule arg_cong[where f = concat], rule map_cong[OF refl])
       (use n in \<open>simp add: joined_def extracted_def with_features_def filter_removeAll_other\<close>)
  moreover have "concat (map (\<lambda>n. filter (\<lambda>kv. fst kv = n) (kept_row tk r @ feature_row (kept_row tk r)))
                   descriptor_names)
      = concat (map (\<lambda>n. filter (\<lambda>kv. fst kv = n)
                   (AList.update ''features'' (feature_cell tk r) r
                    @ feature_row (AList.update ''features'' (feature_cell tk r) r)))
                   descriptor_names)" for r
    by (rule arg_cong[where f = concat], rule map_cong[OF refl])
       (use n in \<open>simp add: kept_row_def filter_key_delete\<close>)
  ultimately show ?thesis
    apply (simp add: take_columns_def joined_def extracted_def with_features_def split_def o_def)
    apply (rule numbered_cong)
    apply simp
    done
qed

lemma column_extracted:
  "column (joined (extracted tk csv)) ''p_np'' = column (joined (with_features tk csv)) ''p_np''"
  apply (simp add: column_def joined_def extracted_def with_features_def split_def o_def)
  apply (rule numbered_cong)
  apply (simp add: cell_of_joined_row cell_of_kept_row cell_of_update descriptor_names_def)
  done

text \<open>
  When at least one record has an identifier that parses: after lines 31 and 32 have
  succeeded, lines 35 to 37 raise nothing and keep every row; they only delete the column
  \<^verbatim>\<open>valid_smiles\<close>, so the table is unchanged when the input has no column of that
  name. The script without lines 35 to 37 then ends with the same exception or the same X
  and y, and with the same table as well when the input has no column
  \<^verbatim>\<open>valid_smiles\<close>.
\<close>

lemma second_filter_keeps_every_row:
  assumes csv: "from_csv csv" and some: "survivors tk csv \<noteq> []"
  shows "(\<forall>df2. bind (clean csv) (add_features tk) = Inr df2 \<longrightarrow>
            (\<exists>df3. filter_valid tk df2 = Inr df3
                 \<and> rows df3 = map (\<lambda>(i, r). (i, AList.delete ''valid_smiles'' r)) (rows df2)
                 \<and> map fst (rows df3) = map fst (rows df2)
                 \<and> (''valid_smiles'' \<notin> set (columns csv) \<longrightarrow> df3 = df2)))
       \<and> map_sum fst (\<lambda>d. (out_X d, out_y d)) (prepare tk csv)
           = map_sum fst (\<lambda>d. (out_X d, out_y d)) (prepare_without_filter tk csv)
       \<and> (''valid_smiles'' \<notin> set (columns csv) \<longrightarrow>
            prepare tk csv = prepare_without_filter tk csv)"
proof -
  note d = from_csv_distinct[OF csv]
  have 1: "\<exists>df3. filter_valid tk df2 = Inr df3
                 \<and> rows df3 = map (\<lambda>(i, r). (i, AList.delete ''valid_smiles'' r)) (rows df2)
                 \<and> map fst (rows df3) = map fst (rows df2)
                 \<and> (''valid_smiles'' \<notin> set (columns csv) \<longrightarrow> df3 = df2)"
    if "bind (clean csv) (add_features tk) = Inr df2" for df2
  proof -
    from that have c: "''smiles'' \<in> set (columns csv)" and df2: "df2 = with_features tk csv"
      unfolding featured_eq[OF d] by (auto split: if_splits)
    show ?thesis
      unfolding df2 filter_valid_with_features[OF d c]
      using extracted_same[OF csv, of tk] some
      by (simp add: extracted_rows split_def o_def)
  qed
  have 2: "map_sum fst (\<lambda>d. (out_X d, out_y d)) (prepare tk csv)
           = map_sum fst (\<lambda>d. (out_X d, out_y d)) (prepare_without_filter tk csv)"
    unfolding prepare_eq[OF d] prepare_without_filter_eq[OF d] using some
    by (simp add: take_columns_extracted column_extracted)
  have 3: "prepare tk csv = prepare_without_filter tk csv"
    if "''valid_smiles'' \<notin> set (columns csv)"
    unfolding prepare_eq[OF d] prepare_without_filter_eq[OF d] using some
    by (simp add: extracted_same[OF csv that])
  from 1 2 3 show ?thesis by blast
qed

lemma second_filter_keeps_every_row_example:
  "from_csv short_csv \<and> ''valid_smiles'' \<notin> set (columns short_csv) \<and>
   (\<exists>df2. bind (clean short_csv) (add_features toy) = Inr df2 \<and>
          filter_valid toy df2 = Inr df2 \<and> map fst (rows df2) = [0, 3]) \<and>
   map_sum fst (\<lambda>d. (out_X d, out_y d)) (prepare toy short_csv)
     = map_sum fst (\<lambda>d. (out_X d, out_y d)) (prepare_without_filter toy short_csv) \<and>
   prepare toy short_csv = prepare_without_filter toy short_csv"
proof -
  let ?df2 = "projr (bind (clean short_csv) (add_features toy))"
  have csv: "from_csv short_csv"
    by code_simp
  have v: "''valid_smiles'' \<notin> set (columns short_csv)"
    by code_simp
  have run: "bind (clean short_csv) (add_features toy) = Inr ?df2"
    by code_simp
  have labels: "map fst (rows ?df2) = [0, 3]"
    by code_simp
  have some: "survivors toy short_csv \<noteq> []"
    by code_simp
  from second_filter_keeps_every_row[OF csv some] run v
  have "filter_valid toy ?df2 = Inr ?df2"
    and "map_sum fst (\<lambda>d. (out_X d, out_y d)) (prepare toy short_csv)
           = map_sum fst (\<lambda>d. (out_X d, out_y d)) (prepare_without_filter toy short_csv)"
    and "prepare toy short_csv = prepare_without_filter toy short_csv"
    by auto
  with csv v run labels show ?thesis
    by (intro conjI exI[of _ ?df2])
qed

text \<open>
  C10. The claim fails on a table in which no identifier parses. With lines 35 to 37 the
  script ends at line 37 with KeyError for \<^verbatim>\<open>valid_smiles\<close>: the second filter, run
  on the empty table, selects no columns. Without them lines 40 to 46 assemble an empty X
  and y.
\<close>

theorem second_filter_raises_on_empty_table:
  "prepare toy only_invalid_csv = Inl (KeyError ''valid_smiles'', \<lparr>columns = [], rows = []\<rparr>)
   \<and> map_sum fst (\<lambda>d. (out_X d, out_y d)) (prepare_without_filter toy only_invalid_csv)
       = Inr (\<lparr>columns = [''MolWt'', ''MolLogP'', ''NumHDonors'', ''NumHAcceptors'', ''TPSA''],
               rows = []\<rparr>, [])"
  by code_simp

lemma script_no_identifier:
  "''smiles'' \<notin> set (columns csv) \<Longrightarrow> script tk sk csv = Inl (KeyError ''smiles'', csv)"
  by (simp add: script_def prepare_def extraction_def clean_def dropna_def attempt_def bind_def)

text \<open>
  C3, as amended. Without the identifier column the run ends with KeyError at line 16 and
  the table is still as loaded: nothing has been computed. Without the label column (the
  identifier column present and holding strings or missing values) the run ends with
  KeyError at line 46, before splitting, training and evaluation, but after extraction and
  assembly, provided at least one identifier parses: the table at that moment holds the
  computed descriptor list of every record whose identifier parses.
\<close>

theorem missing_column_aborts:
  "(''smiles'' \<notin> set (columns csv) \<longrightarrow> script tk sk csv = Inl (KeyError ''smiles'', csv))
   \<and> (from_csv csv \<and> ''smiles'' \<in> set (columns csv) \<and> ''p_np'' \<notin> set (columns csv)
        \<and> (\<forall>(i, r) \<in> set (rows csv).
              cell_of r ''smiles'' = NA \<or> (\<exists>t. cell_of r ''smiles'' = Str t))
        \<and> survivors tk csv \<noteq> []
      \<longrightarrow> (\<exists>df1. script tk sk csv = Inl (KeyError ''p_np'', df1)
             \<and> list_all2 (\<lambda>(k, a) (i, r). \<exists>s mol.
                    cell_of r ''smiles'' = Str s \<and> MolFromSmiles tk s = Some mol \<and>
                    cell_of a ''features'' =
                      ListV [MolWt tk mol, MolLogP tk mol, NumHDonors tk mol,
                             NumHAcceptors tk mol, TPSA tk mol])
                  (rows df1) (survivors tk csv)))"
proof (intro conjI impI)
  assume "''smiles'' \<notin> set (columns csv)"
  then show "script tk sk csv = Inl (KeyError ''smiles'', csv)"
    by (rule script_no_identifier)
next
  assume a: "from_csv csv \<and> ''smiles'' \<in> set (columns csv) \<and> ''p_np'' \<notin> set (columns csv)
        \<and> (\<forall>(i, r) \<in> set (rows csv).
              cell_of r ''smiles'' = NA \<or> (\<exists>t. cell_of r ''smiles'' = Str t))
        \<and> survivors tk csv \<noteq> []"
  then have d: "distinct (map fst (rows csv))"
    by (simp add: from_csv_distinct)
  from a have good: "\<not> bad_identifier csv"
    by (fastforce simp: bad_identifier_def is_text_def)
  let ?J = "joined (extracted tk csv)"
  have s: "script tk sk csv = Inl (KeyError ''p_np'', ?J)"
    using a good by (simp add: script_def prepare_eq[OF d] bind_def)
  have J: "rows ?J = zip [0..<length (survivors tk csv)]
             (map (\<lambda>(i, r). kept_row tk r @ feature_row (kept_row tk r)) (survivors tk csv))"
    by (simp add: joined_def extracted_def split_def o_def)
  have "list_all2 (\<lambda>(k, a) (i, r). \<exists>s mol.
                    cell_of r ''smiles'' = Str s \<and> MolFromSmiles tk s = Some mol \<and>
                    cell_of a ''features'' =
                      ListV [MolWt tk mol, MolLogP tk mol, NumHDonors tk mol,
                             NumHAcceptors tk mol, TPSA tk mol])
                  (rows ?J) (survivors tk csv)"
    unfolding J
    by (subst list_all2_numbered)
       (auto simp: survivors_def parses_cases cell_of_joined_row cell_of_kept_row
          descriptor_names_def feature_cell_def compute_descriptors_def)
  with s show "\<exists>df1. script tk sk csv = Inl (KeyError ''p_np'', df1)
             \<and> list_all2 (\<lambda>(k, a) (i, r). \<exists>s mol.
                    cell_of r ''smiles'' = Str s \<and> MolFromSmiles tk s = Some mol \<and>
                    cell_of a ''features'' =
                      ListV [MolWt tk mol, MolLogP tk mol, NumHDonors tk mol,
                             NumHAcceptors tk mol, TPSA tk mol])
                  (rows df1) (survivors tk csv)"
    by blast
qed

text \<open>
  C3 as stated fails on a table without the label column: the run ends with KeyError for
  \<^verbatim>\<open>p_np\<close>, and the table at that moment already holds the descriptors.
\<close>

theorem label_abort_after_extraction_counterexample:
  "script toy toy_sklearn no_label_csv =
     Inl (KeyError ''p_np'',
          \<lparr>columns = [''name'', ''smiles'', ''features'', ''MolWt'', ''MolLogP'', ''NumHDonors'',
                      ''NumHAcceptors'', ''TPSA''],
           rows = [(0, [(''name'', Str ''a''), (''smiles'', Str ''CCO''),
                        (''features'', ListV [40, 1, 1, 1, 20]), (''MolWt'', NumV 40),
                        (''MolLogP'', NumV 1), (''NumHDonors'', NumV 1),
                        (''NumHAcceptors'', NumV 1), (''TPSA'', NumV 20)])]\<rparr>)"
  by code_simp

theorem missing_column_aborts_witness:
  "''smiles'' \<notin> set (columns no_identifier_csv) \<and>
   script toy toy_sklearn no_identifier_csv = Inl (KeyError ''smiles'', no_identifier_csv) \<and>
   from_csv no_label_csv \<and> ''smiles'' \<in> set (columns no_label_csv) \<and>
   ''p_np'' \<notin> set (columns no_label_csv) \<and> survivors toy no_label_csv \<noteq> [] \<and>
   (\<exists>df1. script toy toy_sklearn no_label_csv = Inl (KeyError ''p_np'', df1) \<and>
          length (rows df1) = 1)"
proof -
  have 1: "''smiles'' \<notin> set (columns no_identifier_csv)"
    by code_simp
  have 2: "from_csv no_label_csv" "''smiles'' \<in> set (columns no_label_csv)"
    "''p_np'' \<notin> set (columns no_label_csv)"
    by code_simp+
  have rws: "rows no_label_csv = [(0, [(''name'', Str ''a''), (''smiles'', Str ''CCO'')])]"
    by code_simp
  have 3: "\<forall>(i, r) \<in> set (rows no_label_csv).
       cell_of r ''smiles'' = NA \<or> (\<exists>t. cell_of r ''smiles'' = Str t)"
    unfolding rws by (simp add: cell_of_def)
  have who: "length (survivors toy no_label_csv) = 1"
    by code_simp
  from missing_column_aborts[of no_identifier_csv toy toy_sklearn] 1
  have a: "script toy toy_sklearn no_identifier_csv = Inl (KeyError ''smiles'', no_identifier_csv)"
    by blast
  from who have some: "survivors toy no_label_csv \<noteq> []"
    by auto
  from missing_column_aborts[of no_label_csv toy toy_sklearn] 2 3 some
  obtain df1 where "script toy toy_sklearn no_label_csv = Inl (KeyError ''p_np'', df1)"
    and "list_all2 (\<lambda>(k, a) (i, r). \<exists>s mol.
                    cell_of r ''smiles'' = Str s \<and> MolFromSmiles toy s = Some mol \<and>
                    cell_of a ''features'' =
                      ListV [MolWt toy mol, MolLogP toy mol, NumHDonors toy mol,
                             NumHAcceptors toy mol, TPSA toy mol])
                  (rows df1) (survivors toy no_label_csv)"
    by blast
  then have b: "\<exists>df1. script toy toy_sklearn no_label_csv = Inl (KeyError ''p_np'', df1) \<and>
          length (rows df1) = 1"
    using who by (auto dest: list_all2_lengthD)
  from 1 a 2 some b show ?thesis by blast
qed

section \<open>Facts about the search, the confusion matrix and the comparison\<close>

lemma length_product_dicts:
  "length (product_dicts g) = prod_list (map (\<lambda>(k, vs). length vs) g)"
proof (induction g)
  case Nil
  then show ?case by simp
next
  case (Cons kv g)
  obtain k vs where kv: "kv = (k, vs)" by (cases kv)
  have "length (concat (map (\<lambda>v. map (\<lambda>d. (k, v) # d) (product_dicts g)) vs))
          = length vs * length (product_dicts g)"
    by (induction vs) auto
  with Cons.IH kv show ?case by simp
qed

lemma set_product_dicts:
  "d \<in> set (product_dicts g) \<longleftrightarrow> list_all2 (\<lambda>(k, v) (k', vs). k = k' \<and> v \<in> set vs) d g"
proof (induction g arbitrary: d)
  case Nil
  then show ?case by simp
next
  case (Cons kv g)
  obtain k vs where kv: "kv = (k, vs)" by (cases kv)
  show ?case
    unfolding kv by (fastforce simp: Cons.IH[symmetric] list_all2_Cons2)
qed

lemma distinct_product_row:
  assumes "distinct vs" and "distinct ps"
  shows "distinct (concat (map (\<lambda>v. map (\<lambda>d. (k, v) # d) ps) vs))"
  using assms(1)
proof (induction vs)
  case Nil
  then show ?case by simp
next
  case (Cons v vs)
  have "distinct (map (\<lambda>d. (k, v) # d) ps)"
    using assms(2) by (simp add: distinct_map inj_on_def)
  with Cons show ?case by auto
qed

lemma distinct_product_dicts:
  "\<forall>(k, vs) \<in> set g. distinct vs \<Longrightarrow> distinct (product_dicts g)"
proof (induction g)
  case Nil
  then show ?case by simp
next
  case (Cons kv g)
  obtain k vs where kv: "kv = (k, vs)" by (cases kv)
  with Cons show ?case by (simp add: distinct_product_row)
qed

lemma sorted_param_grid:
  "sort_key fst param_grid =
     [(''max_depth'', [PNone, PInt 10, PInt 20]),
      (''max_features'', [PStr ''sqrt'', PStr ''log2'']),
      (''min_samples_leaf'', [PInt 1, PInt 2]),
      (''min_samples_split'', [PInt 2, PInt 5]),
      (''n_estimators'', [PInt 100, PInt 200])]"
  by code_simp

lemma best_index_max:
  "scores \<noteq> [] \<Longrightarrow>
     best_index scores < length scores \<and> (\<forall>u \<in> set scores. u \<le> scores ! best_index scores)"
proof (induction scores)
  case Nil
  then show ?case by simp
next
  case (Cons s rest)
  show ?case
  proof (cases "\<forall>u \<in> set rest. u \<le> s")
    case True
    then show ?thesis by (simp add: list_all_iff)
  next
    case False
    then have "rest \<noteq> []" by auto
    with Cons.IH have ih: "best_index rest < length rest"
      "\<forall>u \<in> set rest. u \<le> rest ! best_index rest" by auto
    from False obtain u where "u \<in> set rest" "s < u" by (auto simp: not_le)
    with ih(2) have "s \<le> rest ! best_index rest" by force
    with False ih show ?thesis by (auto simp: list_all_iff)
  qed
qed

lemma grid_size: "length (ParameterGrid param_grid) = 48"
  by (simp add: ParameterGrid_def sorted_param_grid length_product_dicts)

lemma grid_distinct: "distinct (ParameterGrid param_grid)"
  by (simp add: ParameterGrid_def sorted_param_grid distinct_product_dicts)

lemma grid_members:
  "p \<in> set (ParameterGrid param_grid) \<longleftrightarrow>
     (\<exists>depth features leaf split trees. p = combination depth features leaf split trees
        \<and> depth \<in> {PNone, PInt 10, PInt 20} \<and> features \<in> {PStr ''sqrt'', PStr ''log2''}
        \<and> leaf \<in> {PInt 1, PInt 2} \<and> split \<in> {PInt 2, PInt 5} \<and> trees \<in> {PInt 100, PInt 200})"
  unfolding ParameterGrid_def sorted_param_grid set_product_dicts combination_def
  by (auto simp: list_all2_Cons2)

lemma zip_with_scores: "zip ps (map f ps) = map (\<lambda>p. (p, f p)) ps"
  by (induction ps) auto

lemma candidate_forest:
  "p \<in> set (ParameterGrid param_grid) \<Longrightarrow>
     set_params (RandomForestClassifier [(''random_state'', PInt 42)]) p = forest p"
  unfolding grid_members by (auto simp: combination_def forest_def)

lemma seed_forest: "seed_of (forest p) = Some 42"
  by (simp add: seed_of_def forest_def)

lemma train_forest:
  "train sk (forest p) g xs ys =
     (case fit sk (forest p) (RandomState sk 42) xs ys of
        Inl e \<Rightarrow> Inl e | Inr (m, g') \<Rightarrow> Inr (m, g))"
  by (simp add: train_def seed_forest split: sum.splits prod.splits)

lemma count_agreements:
  "length (filter (\<lambda>(t, p). t = p) (zip (map f te) (map h te)))
     = length (filter (\<lambda>i. h i = f i) te)"
  by (induction te) auto

lemma accuracy_on_fold:
  "accuracy_score (take_rows ys te) (map (predict sk m) (take_rows xs te)) =
     (if te = [] then Inl ValueError
      else Inr (of_nat (length (filter (\<lambda>i. predict sk m (xs ! i) = ys ! i) te))
                / of_nat (length te)))"
  using count_agreements[of "\<lambda>i. ys ! i" te "\<lambda>i. predict sk m (xs ! i)"]
  by (simp add: accuracy_score_def take_rows_def o_def)

lemma test_score_forest:
  "test_score (fit_and_score sk (forest p) xs ys (tr, te)) = fold_accuracy sk (forest p) xs ys tr te"
proof (cases "fit sk (forest p) (RandomState sk 42) (take_rows xs tr) (take_rows ys tr)")
  case (Inl e)
  then show ?thesis
    by (simp add: fit_and_score_def train_forest fold_accuracy_def take_rows_def[symmetric])
next
  case (Inr r)
  obtain m g where "r = (m, g)" by (cases r)
  with Inr show ?thesis
    by (simp add: fit_and_score_def train_forest fold_accuracy_def take_rows_def[symmetric]
          accuracy_on_fold)
qed

lemma those_map:
  "those (map f xs) =
     (if list_all (\<lambda>x. f x \<noteq> None) xs then Some (map (\<lambda>x. the (f x)) xs) else None)"
  by (induction xs) (auto split: option.splits)

lemma mean_test_score_forest:
  "mean_test_score sk (map (fit_and_score sk (forest p) xs ys) (cv_split sk cv ys))
     = mean_accuracy sk (forest p) cv xs ys"
proof -
  let ?f = "\<lambda>part. fold_accuracy sk (forest p) xs ys (fst part) (snd part)"
  have "test_score (fit_and_score sk (forest p) xs ys part) = ?f part" for part
    by (cases part) (simp add: test_score_forest)
  then have "mean_test_score sk (map (fit_and_score sk (forest p) xs ys) (cv_split sk cv ys))
      = map_option (np_mean sk) (those (map ?f (cv_split sk cv ys)))"
    by (simp add: mean_test_score_def o_def)
  also have "\<dots> = mean_accuracy sk (forest p) cv xs ys"
    unfolding those_map mean_accuracy_def split_def by simp
  finally show ?thesis .
qed

lemma GridSearchCV_returned:
  assumes "GridSearchCV sk est grid cv g xs ys = Inr (gs, g')"
  shows "ParameterGrid grid \<noteq> []"
    and "cv_results gs =
           map (\<lambda>p. (p, mean_test_score sk
                          (map (fit_and_score sk (set_params est p) xs ys) (cv_split sk cv ys))))
               (ParameterGrid grid)"
    and "\<exists>i < length (ParameterGrid grid).
           best_params gs = ParameterGrid grid ! i
         \<and> (best_params gs, best_score gs) \<in> set (cv_results gs)
         \<and> spec (best_estimator gs) = set_params est (ParameterGrid grid ! i)
         \<and> (\<exists>m. train sk (set_params est (ParameterGrid grid ! i)) g xs ys = Inr (m, g')
                \<and> fitted (best_estimator gs) = Some m)"
    and "\<forall>(p, s) \<in> set (cv_results gs). s \<le> best_score gs"
    and "\<not> list_all (\<lambda>c. count_list ys c < cv) ys"
proof -
  let ?C = "ParameterGrid grid"
  let ?S = "map (mean_test_score sk) (search_results sk est ?C (cv_split sk cv ys) xs ys)"
  from assms have ne: "?C \<noteq> []" and guard: "\<not> list_all (\<lambda>c. count_list ys c < cv) ys"
    and r: "refit sk est ?C ?S (best_index ?S) g xs ys = Inr (gs, g')"
    by (auto simp: GridSearchCV_def run_search_def evaluate_candidates_def format_results_def
          split: if_splits)
  have S: "?S = map (\<lambda>p. mean_test_score sk
                          (map (fit_and_score sk (set_params est p) xs ys) (cv_split sk cv ys))) ?C"
    by (simp add: search_results_def o_def)
  from ne have "?S \<noteq> []" by (simp add: search_results_def)
  from best_index_max[OF this] have i': "best_index ?S < length ?S"
    and top: "\<forall>u \<in> set ?S. u \<le> ?S ! best_index ?S"
    by blast+
  have len: "length ?S = length ?C" by (simp add: search_results_def)
  with i' have i: "best_index ?S < length ?C" by simp
  from r obtain m where m: "train sk (set_params est (?C ! best_index ?S)) g xs ys = Inr (m, g')"
    and gs: "gs = \<lparr>cv_results = zip ?C ?S, best_params = ?C ! best_index ?S,
                   best_score = ?S ! best_index ?S,
                   best_estimator = \<lparr>spec = set_params est (?C ! best_index ?S),
                                     fitted = Some m\<rparr>\<rparr>"
    by (auto simp: refit_def split: sum.splits prod.splits)
  show "?C \<noteq> []" by (rule ne)
  show "\<not> list_all (\<lambda>c. count_list ys c < cv) ys" by (rule guard)
  show res: "cv_results gs =
           map (\<lambda>p. (p, mean_test_score sk
                          (map (fit_and_score sk (set_params est p) xs ys) (cv_split sk cv ys)))) ?C"
    unfolding gs grid_search.simps S by (rule zip_with_scores)
  have "(best_params gs, best_score gs) \<in> set (cv_results gs)"
    unfolding gs grid_search.simps using i len
    by (auto simp: set_zip)
  with i m show "\<exists>i < length ?C.
           best_params gs = ?C ! i
         \<and> (best_params gs, best_score gs) \<in> set (cv_results gs)
         \<and> spec (best_estimator gs) = set_params est (?C ! i)
         \<and> (\<exists>m. train sk (set_params est (?C ! i)) g xs ys = Inr (m, g')
                \<and> fitted (best_estimator gs) = Some m)"
    unfolding gs by (intro exI[of _ "best_index ?S"]) simp
  have "s \<le> ?S ! best_index ?S" if "(p, s) \<in> set (zip ?C ?S)" for p s
  proof -
    from that have "s \<in> set ?S" by (rule set_zip_rightD)
    with top show ?thesis by (rule bspec)
  qed
  then show "\<forall>(p, s) \<in> set (cv_results gs). s \<le> best_score gs"
    unfolding gs grid_search.simps by blast
qed

lemma tune_returned:
  assumes "tune sk d = Inr (X_train, X_test, y_train, y_test, gs, g)"
  shows "\<exists>y. labels_of (float_class sk) (tolist (out_y d)) = Inr y
            \<and> train_test_split sk (map snd (rows (out_X d))) y (1 / 5) y 42
                = Inr (X_train, X_test, y_train, y_test)"
    and "GridSearchCV sk (RandomForestClassifier [(''random_state'', PInt 42)]) param_grid 5
           (global_rng sk) X_train y_train = Inr (gs, g)"
  using assms by (auto simp: tune_def attempt_def split: sum.splits prod.splits)

text \<open>
  The search does not always succeed: it raises ValueError when no class of the training
  subset has 5 members, and lines 56 to 79 then end with that exception.
\<close>

lemma search_needs_five_members:
  "list_all (\<lambda>c. count_list y_train c < 5) y_train \<Longrightarrow>
     GridSearchCV sk est param_grid 5 g X_train y_train = Inl ValueError"
  by (simp add: GridSearchCV_def)

lemma tune_insufficient_data:
  assumes "labels_of (float_class sk) (tolist (out_y d)) = Inr y"
    and "train_test_split sk (map snd (rows (out_X d))) y (1 / 5) y 42
           = Inr (X_train, X_test, y_train, y_test)"
    and "list_all (\<lambda>c. count_list y_train c < 5) y_train"
  shows "tune sk d = Inl (ValueError, out_df d)"
  using assms by (simp add: tune_def attempt_def search_needs_five_members)

text \<open>
  C4. Whenever lines 56 to 79 succeed: the search ran on the training subset that the split
  of lines 56 to 58 returned; its results hold exactly 48 candidates, all different, one
  for every combination of a maximum depth in {None, 10, 20}, a feature-sampling strategy
  in {sqrt, log2}, a minimum leaf size in {1, 2}, a minimum split size in {2, 5} and a tree
  count in {100, 200}; each is recorded with the mean, over the folds the splitter returns
  for cv = 5, of the accuracy on the held-out part of the forest (seed 42, that
  combination) trained on the rest of the training subset; the selected combination is one
  of them, no candidate has a higher mean accuracy, and the best estimator is the forest
  with the selected combination trained on the whole training subset.
\<close>

theorem grid_search_exhaustive_and_best:
  assumes run: "tune sk d = Inr (X_train, X_test, y_train, y_test, grid_search, g)"
  shows "(\<exists>y. labels_of (float_class sk) (tolist (out_y d)) = Inr y
            \<and> train_test_split sk (map snd (rows (out_X d))) y (1 / 5) y 42
                = Inr (X_train, X_test, y_train, y_test))
       \<and> length (cv_results grid_search) = 48
       \<and> distinct (map fst (cv_results grid_search))
       \<and> (\<forall>depth \<in> {PNone, PInt 10, PInt 20}. \<forall>features \<in> {PStr ''sqrt'', PStr ''log2''}.
          \<forall>leaf \<in> {PInt 1, PInt 2}. \<forall>split \<in> {PInt 2, PInt 5}. \<forall>trees \<in> {PInt 100, PInt 200}.
            (combination depth features leaf split trees,
             mean_accuracy sk (forest (combination depth features leaf split trees)) 5
               X_train y_train) \<in> set (cv_results grid_search))
       \<and> (best_params grid_search, best_score grid_search) \<in> set (cv_results grid_search)
       \<and> (\<forall>(p, s) \<in> set (cv_results grid_search). s \<le> best_score grid_search)
       \<and> spec (best_estimator grid_search) = forest (best_params grid_search)
       \<and> (\<exists>m g'. fit sk (forest (best_params grid_search)) (RandomState sk 42) X_train y_train
                    = Inr (m, g')
                \<and> fitted (best_estimator grid_search) = Some m)"
proof -
  let ?est = "RandomForestClassifier [(''random_state'', PInt 42)]"
  let ?C = "ParameterGrid param_grid"
  note split = tune_returned(1)[OF run]
  note search = GridSearchCV_returned[OF tune_returned(2)[OF run]]
  have res: "cv_results grid_search = map (\<lambda>p. (p, mean_accuracy sk (forest p) 5 X_train y_train)) ?C"
    unfolding search(2)
    by (rule map_cong) (simp_all add: candidate_forest mean_test_score_forest del: set_params.simps)
  have keys: "map fst (cv_results grid_search) = ?C"
    unfolding res by (simp add: o_def)
  have n: "length (cv_results grid_search) = 48"
    unfolding res by (simp add: grid_size)
  have dist: "distinct (map fst (cv_results grid_search))"
    unfolding keys by (rule grid_distinct)
  have all: "\<forall>depth \<in> {PNone, PInt 10, PInt 20}. \<forall>features \<in> {PStr ''sqrt'', PStr ''log2''}.
          \<forall>leaf \<in> {PInt 1, PInt 2}. \<forall>split \<in> {PInt 2, PInt 5}. \<forall>trees \<in> {PInt 100, PInt 200}.
            (combination depth features leaf split trees,
             mean_accuracy sk (forest (combination depth features leaf split trees)) 5
               X_train y_train) \<in> set (cv_results grid_search)"
  proof (intro ballI)
    fix depth features leaf split trees
    assume "depth \<in> {PNone, PInt 10, PInt 20}" "features \<in> {PStr ''sqrt'', PStr ''log2''}"
      "leaf \<in> {PInt 1, PInt 2}" "split \<in> {PInt 2, PInt 5}" "trees \<in> {PInt 100, PInt 200}"
    then have "combination depth features leaf split trees \<in> set ?C"
      unfolding grid_members by blast
    then show "(combination depth features leaf split trees,
             mean_accuracy sk (forest (combination depth features leaf split trees)) 5
               X_train y_train) \<in> set (cv_results grid_search)"
      unfolding res set_map by (rule imageI)
  qed
  from search(3) obtain i m where i: "i < length ?C"
    and bp: "best_params grid_search = ?C ! i"
    and best: "(best_params grid_search, best_score grid_search) \<in> set (cv_results grid_search)"
    and sp: "spec (best_estimator grid_search) = set_params ?est (?C ! i)"
    and tr: "train sk (set_params ?est (?C ! i)) (global_rng sk) X_train y_train = Inr (m, g)"
    and ft: "fitted (best_estimator grid_search) = Some m"
    by blast
  from i have mem: "?C ! i \<in> set ?C" by simp
  have sp': "spec (best_estimator grid_search) = forest (best_params grid_search)"
    unfolding sp bp by (rule candidate_forest[OF mem])
  from tr have "\<exists>g'. fit sk (forest (best_params grid_search)) (RandomState sk 42) X_train y_train
                    = Inr (m, g')"
    unfolding candidate_forest[OF mem] bp train_forest
    by (auto split: sum.splits prod.splits)
  with ft have fitd: "\<exists>m g'. fit sk (forest (best_params grid_search)) (RandomState sk 42)
                     X_train y_train = Inr (m, g')
                \<and> fitted (best_estimator grid_search) = Some m"
    by blast
  from split n dist all best search(4) sp' fitd show ?thesis
    by (intro conjI)
qed

text \<open>The stand-in run on the table of eight usable records.\<close>

lemma study_tuned:
  "map_sum fst (\<lambda>(X_train, X_test, y_train, y_test, grid_search, g).
                 (length X_test, y_train, y_test, best_estimator grid_search, g))
     (tune toy_sklearn study_data)
   = Inr (2, [LInt 1, LInt 1, LInt 1, LInt 0, LInt 1, LInt 1], [LInt 1, LInt 0],
          \<lparr>spec = forest (combination PNone (PStr ''sqrt'') (PInt 1) (PInt 2) (PInt 200)),
           fitted = Some (LInt 1)\<rparr>, 7)"
  by code_simp

lemma study_tuned_cases:
  obtains X_train a b grid_search where
    "tune toy_sklearn study_data
       = Inr (X_train, [a, b], [LInt 1, LInt 1, LInt 1, LInt 0, LInt 1, LInt 1], [LInt 1, LInt 0],
              grid_search, 7)"
    and "best_estimator grid_search =
           \<lparr>spec = forest (combination PNone (PStr ''sqrt'') (PInt 1) (PInt 2) (PInt 200)),
            fitted = Some (LInt 1)\<rparr>"
proof (cases "tune toy_sklearn study_data")
  case (Inl e)
  with study_tuned show ?thesis by simp
next
  case (Inr t)
  obtain X_train X_test y_train y_test grid_search g
    where t: "t = (X_train, X_test, y_train, y_test, grid_search, g)"
    by (cases t)
  from study_tuned Inr t have "length X_test = 2"
    and rest: "y_train = [LInt 1, LInt 1, LInt 1, LInt 0, LInt 1, LInt 1]"
      "y_test = [LInt 1, LInt 0]" "g = 7"
      "best_estimator grid_search =
           \<lparr>spec = forest (combination PNone (PStr ''sqrt'') (PInt 1) (PInt 2) (PInt 200)),
            fitted = Some (LInt 1)\<rparr>"
    by simp_all
  then obtain a b where "X_test = [a, b]"
    by (auto simp: length_Suc_conv numeral_2_eq_2)
  with Inr t rest that show ?thesis by simp
qed

lemma study_score_200:
  "mean_accuracy toy_sklearn
     (forest (combination PNone (PStr ''sqrt'') (PInt 1) (PInt 2) (PInt 200))) 5 xs
     [LInt 1, LInt 1, LInt 1, LInt 0, LInt 1, LInt 1] = Some (4 / 5)"
  by code_simp

lemma study_score_100:
  "mean_accuracy toy_sklearn
     (forest (combination (PInt 20) (PStr ''log2'') (PInt 2) (PInt 5) (PInt 100))) 5 xs
     [LInt 1, LInt 1, LInt 1, LInt 0, LInt 1, LInt 1] = Some 0"
  by code_simp

theorem grid_search_exhaustive_and_best_witness:
  "\<exists>X_train X_test grid_search.
      tune toy_sklearn study_data
        = Inr (X_train, X_test, [LInt 1, LInt 1, LInt 1, LInt 0, LInt 1, LInt 1],
               [LInt 1, LInt 0], grid_search, 7)
    \<and> length (cv_results grid_search) = 48
    \<and> (combination PNone (PStr ''sqrt'') (PInt 1) (PInt 2) (PInt 200), Some (4 / 5))
         \<in> set (cv_results grid_search)
    \<and> (combination (PInt 20) (PStr ''log2'') (PInt 2) (PInt 5) (PInt 100), Some 0)
         \<in> set (cv_results grid_search)
    \<and> Some (4 / 5) \<le> best_score grid_search
    \<and> spec (best_estimator grid_search) = forest (best_params grid_search)"
proof -
  obtain X_train a b grid_search where
    run: "tune toy_sklearn study_data
       = Inr (X_train, [a, b], [LInt 1, LInt 1, LInt 1, LInt 0, LInt 1, LInt 1], [LInt 1, LInt 0],
              grid_search, 7)"
    by (rule study_tuned_cases)
  note facts = grid_search_exhaustive_and_best[OF run]
  from facts have n: "length (cv_results grid_search) = 48"
    by (elim conjE)
  from facts have top: "\<forall>(p, s) \<in> set (cv_results grid_search). s \<le> best_score grid_search"
    by (elim conjE)
  from facts have sp: "spec (best_estimator grid_search) = forest (best_params grid_search)"
    by (elim conjE)
  from facts have all: "\<forall>depth \<in> {PNone, PInt 10, PInt 20}. \<forall>features \<in> {PStr ''sqrt'', PStr ''log2''}.
          \<forall>leaf \<in> {PInt 1, PInt 2}. \<forall>split \<in> {PInt 2, PInt 5}. \<forall>trees \<in> {PInt 100, PInt 200}.
            (combination depth features leaf split trees,
             mean_accuracy toy_sklearn (forest (combination depth features leaf split trees)) 5
               X_train [LInt 1, LInt 1, LInt 1, LInt 0, LInt 1, LInt 1])
              \<in> set (cv_results grid_search)"
    by (elim conjE)
  from all have "(combination PNone (PStr ''sqrt'') (PInt 1) (PInt 2) (PInt 200),
             mean_accuracy toy_sklearn
               (forest (combination PNone (PStr ''sqrt'') (PInt 1) (PInt 2) (PInt 200))) 5
               X_train [LInt 1, LInt 1, LInt 1, LInt 0, LInt 1, LInt 1])
              \<in> set (cv_results grid_search)"
    by simp
  then have hi: "(combination PNone (PStr ''sqrt'') (PInt 1) (PInt 2) (PInt 200), Some (4 / 5))
         \<in> set (cv_results grid_search)"
    by (simp only: study_score_200)
  from all have "(combination (PInt 20) (PStr ''log2'') (PInt 2) (PInt 5) (PInt 100),
             mean_accuracy toy_sklearn
               (forest (combination (PInt 20) (PStr ''log2'') (PInt 2) (PInt 5) (PInt 100))) 5
               X_train [LInt 1, LInt 1, LInt 1, LInt 0, LInt 1, LInt 1])
              \<in> set (cv_results grid_search)"
    by simp
  then have lo: "(combination (PInt 20) (PStr ''log2'') (PInt 2) (PInt 5) (PInt 100), Some 0)
         \<in> set (cv_results grid_search)"
    by (simp only: study_score_100)
  from bspec[OF top hi] have "Some (4 / 5) \<le> best_score grid_search"
    by simp
  with run n hi lo sp show ?thesis
    by (intro exI[of _ X_train] exI[of _ "[a, b]"] exI[of _ grid_search] conjI)
qed

lemma search_keeps_generator:
  assumes "tune sk d = Inr (X_train, X_test, y_train, y_test, grid_search, g)"
  shows "g = global_rng sk"
proof -
  let ?est = "RandomForestClassifier [(''random_state'', PInt 42)]"
  let ?C = "ParameterGrid param_grid"
  from GridSearchCV_returned(3)[OF tune_returned(2)[OF assms]]
  obtain i m where i: "i < length ?C"
    and tr: "train sk (set_params ?est (?C ! i)) (global_rng sk) X_train y_train = Inr (m, g)"
    by blast
  from i have mem: "?C ! i \<in> set ?C" by simp
  from tr show ?thesis
    unfolding candidate_forest[OF mem] train_forest
    by (auto split: sum.splits prod.splits)
qed

lemma refit_reproduces_best_model:
  assumes "tune sk d = Inr (X_train, X_test, y_train, y_test, grid_search, g)"
  shows "fit_classifier sk (best_estimator grid_search) g' X_train y_train
           = Inr (best_estimator grid_search, g')"
proof -
  let ?est = "RandomForestClassifier [(''random_state'', PInt 42)]"
  let ?C = "ParameterGrid param_grid"
  from GridSearchCV_returned(3)[OF tune_returned(2)[OF assms]]
  obtain i m where i: "i < length ?C"
    and sp: "spec (best_estimator grid_search) = set_params ?est (?C ! i)"
    and tr: "train sk (set_params ?est (?C ! i)) (global_rng sk) X_train y_train = Inr (m, g)"
    and ft: "fitted (best_estimator grid_search) = Some m"
    by blast
  from i have mem: "?C ! i \<in> set ?C" by simp
  from tr have "train sk (forest (?C ! i)) g' X_train y_train = Inr (m, g')"
    unfolding candidate_forest[OF mem] train_forest
    by (auto split: sum.splits prod.splits)
  then have "fit_classifier sk (best_estimator grid_search) g' X_train y_train
           = Inr ((best_estimator grid_search)\<lparr>fitted := Some m\<rparr>, g')"
    by (simp add: fit_classifier_def sp candidate_forest[OF mem] del: set_params.simps)
  also have "(best_estimator grid_search)\<lparr>fitted := Some m\<rparr> = best_estimator grid_search"
    using ft by simp
  finally show ?thesis .
qed

lemma count_matches:
  "length xs = length ys \<Longrightarrow>
     length (filter (\<lambda>(t, p). t = p) (zip ys (map f xs)))
       = length (filter (\<lambda>(x, y). f x = y) (zip xs ys))"
  by (induction xs ys rule: list_induct2) auto

lemma accuracy_is_score:
  "ys \<noteq> [] \<Longrightarrow> length xs = length ys \<Longrightarrow>
     accuracy_score ys (map (predict sk m) xs) = Inr (score sk m xs ys)"
  by (simp add: accuracy_score_def score_def count_matches)

lemma evaluate_returned:
  assumes "evaluate sk clf xs ys = Inr (y_pred, acc, c)"
  shows "\<exists>m. fitted clf = Some m \<and> y_pred = map (predict sk m) xs \<and> acc = score sk m xs ys"
    and "ys \<noteq> []" and "length xs = length ys"
    and "confusion_matrix ys y_pred = Inr c"
proof -
  from assms obtain m where m: "fitted clf = Some m" and p: "y_pred = map (predict sk m) xs"
    and a: "accuracy_score ys y_pred = Inr acc" and c: "confusion_matrix ys y_pred = Inr c"
    by (auto simp: evaluate_def predict_classifier_def split: option.splits sum.splits)
  from a show ne: "ys \<noteq> []" and len: "length xs = length ys"
    by (auto simp: accuracy_score_def p split: if_splits)
  from a accuracy_is_score[OF ne len, of sk m] have "acc = score sk m xs ys"
    by (simp add: p)
  with m p show "\<exists>m. fitted clf = Some m \<and> y_pred = map (predict sk m) xs \<and> acc = score sk m xs ys"
    by blast
  show "confusion_matrix ys y_pred = Inr c" by (rule c)
qed

lemma train_unseeded:
  "seed_of est = None \<Longrightarrow> fit sk est g xs ys = Inr (m, g') \<Longrightarrow>
     train sk est g xs ys = Inr (m, if draws est then g' else g)"
  by (simp add: train_def)

text \<open>
  C7. Let lines 56 to 90 have succeeded, and let the training of each baseline on the
  training subset succeed. Then the comparison loop succeeds. The object
  \<^verbatim>\<open>best_model\<close> is after the loop what it was before: line 114 trains it again, with
  seed 42 on the same training subset, which reproduces it; so its accuracy in the
  comparison is the one the evaluator computed. Each baseline is the model that its own
  arguments give on the same training subset, from the state the global generator had when
  the script started, and it is scored on the same test subset. The search and the
  re-training of the forest have left the global generator in that state.
\<close>

theorem comparison_leaves_best_model_unchanged:
  assumes tuned: "tune sk d = Inr (X_train, X_test, y_train, y_test, grid_search, g)"
    and scored: "evaluate sk (best_estimator grid_search) X_test y_test = Inr (y_pred, acc, c)"
    and lr: "fit sk (LogisticRegression [(''max_iter'', PInt 1000)]) g X_train y_train
               = Inr (m1, g1)"
    and gb: "fit sk (GradientBoostingClassifier []) g X_train y_train = Inr (m2, g2)"
  shows "compare_models sk (best_estimator grid_search) g X_train y_train X_test y_test =
           Inr ([best_estimator grid_search,
                 \<lparr>spec = LogisticRegression [(''max_iter'', PInt 1000)], fitted = Some m1\<rparr>,
                 \<lparr>spec = GradientBoostingClassifier [], fitted = Some m2\<rparr>],
                g2,
                [(''RandomForest'', acc),
                 (''LogisticRegression'', score sk m1 X_test y_test),
                 (''GradientBoosting'', score sk m2 X_test y_test)])
       \<and> g = global_rng sk"
proof -
  note same = refit_reproduces_best_model[OF tuned, of g]
  from evaluate_returned[OF scored] obtain m0 where m0: "fitted (best_estimator grid_search) = Some m0"
    and acc: "acc = score sk m0 X_test y_test"
    and ne: "y_test \<noteq> []" and len: "length X_test = length y_test"
    by blast
  have p0: "predict_classifier sk (best_estimator grid_search) X_test
              = Inr (map (predict sk m0) X_test)"
    by (simp add: predict_classifier_def m0)
  have f1: "fit_classifier sk \<lparr>spec = LogisticRegression [(''max_iter'', PInt 1000)],
                               fitted = None\<rparr> g X_train y_train
              = Inr (\<lparr>spec = LogisticRegression [(''max_iter'', PInt 1000)],
                      fitted = Some m1\<rparr>, g)"
    using train_unseeded[OF _ lr] by (simp add: fit_classifier_def seed_of_def)
  have f2: "fit_classifier sk \<lparr>spec = GradientBoostingClassifier [], fitted = None\<rparr> g
               X_train y_train
              = Inr (\<lparr>spec = GradientBoostingClassifier [], fitted = Some m2\<rparr>, g2)"
    using train_unseeded[OF _ gb] by (simp add: fit_classifier_def seed_of_def)
  have "compare_models sk (best_estimator grid_search) g X_train y_train X_test y_test =
           Inr ([best_estimator grid_search,
                 \<lparr>spec = LogisticRegression [(''max_iter'', PInt 1000)], fitted = Some m1\<rparr>,
                 \<lparr>spec = GradientBoostingClassifier [], fitted = Some m2\<rparr>],
                g2,
                [(''RandomForest'', acc),
                 (''LogisticRegression'', score sk m1 X_test y_test),
                 (''GradientBoosting'', score sk m2 X_test y_test)])"
    by (simp add: compare_models_def same m0 f1 f2 predict_classifier_def
          accuracy_is_score[OF ne len] acc)
  then show ?thesis
    using search_keeps_generator[OF tuned] by (rule conjI)
qed

theorem comparison_leaves_best_model_unchanged_witness:
  "\<exists>X_train X_test grid_search y_pred c.
      tune toy_sklearn study_data
        = Inr (X_train, X_test, [LInt 1, LInt 1, LInt 1, LInt 0, LInt 1, LInt 1],
               [LInt 1, LInt 0], grid_search, 7)
    \<and> evaluate toy_sklearn (best_estimator grid_search) X_test [LInt 1, LInt 0]
        = Inr (y_pred, 1 / 2, c)
    \<and> compare_models toy_sklearn (best_estimator grid_search) 7 X_train
         [LInt 1, LInt 1, LInt 1, LInt 0, LInt 1, LInt 1] X_test [LInt 1, LInt 0]
        = Inr ([best_estimator grid_search,
                \<lparr>spec = LogisticRegression [(''max_iter'', PInt 1000)], fitted = Some (LInt 1)\<rparr>,
                \<lparr>spec = GradientBoostingClassifier [], fitted = Some (LInt 1)\<rparr>],
               8,
               [(''RandomForest'', 1 / 2), (''LogisticRegression'', 1 / 2),
                (''GradientBoosting'', 1 / 2)])"
proof -
  let ?y_train = "[LInt 1, LInt 1, LInt 1, LInt 0, LInt 1, LInt 1]"
  obtain X_train a b grid_search where
    run: "tune toy_sklearn study_data
       = Inr (X_train, [a, b], ?y_train, [LInt 1, LInt 0], grid_search, 7)"
    and best: "best_estimator grid_search =
           \<lparr>spec = forest (combination PNone (PStr ''sqrt'') (PInt 1) (PInt 2) (PInt 200)),
            fitted = Some (LInt 1)\<rparr>"
    by (rule study_tuned_cases)
  have scored: "evaluate toy_sklearn (best_estimator grid_search) [a, b] [LInt 1, LInt 0]
        = Inr ([LInt 1, LInt 1], 1 / 2, [[0, 1], [0, 1]])"
    unfolding best by code_simp
  have lr: "fit toy_sklearn (LogisticRegression [(''max_iter'', PInt 1000)]) 7 X_train ?y_train
              = Inr (LInt 1, 7)"
    by code_simp
  have gb: "fit toy_sklearn (GradientBoostingClassifier []) 7 X_train ?y_train = Inr (LInt 1, 8)"
    by code_simp
  have s: "score toy_sklearn (LInt 1) [a, b] [LInt 1, LInt 0] = 1 / 2"
    by code_simp
  from comparison_leaves_best_model_unchanged[OF run scored lr gb, THEN conjunct1]
  have "compare_models toy_sklearn (best_estimator grid_search) 7 X_train ?y_train [a, b]
          [LInt 1, LInt 0]
        = Inr ([best_estimator grid_search,
                \<lparr>spec = LogisticRegression [(''max_iter'', PInt 1000)], fitted = Some (LInt 1)\<rparr>,
                \<lparr>spec = GradientBoostingClassifier [], fitted = Some (LInt 1)\<rparr>],
               8,
               [(''RandomForest'', 1 / 2), (''LogisticRegression'', 1 / 2),
                (''GradientBoosting'', 1 / 2)])"
    by (simp only: s)
  with run scored show ?thesis
    by (intro exI[of _ X_train] exI[of _ "[a, b]"] exI[of _ grid_search]
          exI[of _ "[LInt 1, LInt 1]"] exI[of _ "[[0, 1], [0, 1]]"] conjI)
qed

text \<open>
  When the training of a baseline raises (the library's logistic regression does on
  training labels of a single class), the loop ends with that exception.
\<close>

lemma comparison_aborts_when_a_baseline_fails:
  assumes tuned: "tune sk d = Inr (X_train, X_test, y_train, y_test, grid_search, g)"
    and scored: "evaluate sk (best_estimator grid_search) X_test y_test = Inr (y_pred, acc, c)"
    and lr: "fit sk (LogisticRegression [(''max_iter'', PInt 1000)]) g X_train y_train = Inl e"
  shows "compare_models sk (best_estimator grid_search) g X_train y_train X_test y_test = Inl e"
proof -
  note same = refit_reproduces_best_model[OF tuned, of g]
  from evaluate_returned[OF scored] obtain m0 where m0: "fitted (best_estimator grid_search) = Some m0"
    and ne: "y_test \<noteq> []" and len: "length X_test = length y_test"
    by blast
  have f1: "fit_classifier sk \<lparr>spec = LogisticRegression [(''max_iter'', PInt 1000)],
                               fitted = None\<rparr> g X_train y_train = Inl e"
    using lr by (simp add: fit_classifier_def train_def seed_of_def)
  show ?thesis
    by (simp add: compare_models_def same f1 predict_classifier_def m0
          accuracy_is_score[OF ne len])
qed

text \<open>
  The seed matters: a forest without \<^verbatim>\<open>random_state\<close>, trained twice on the same data,
  can learn different models. The stand-in forest does.
\<close>

lemma unseeded_forest_refit_example:
  "fit_classifier toy_sklearn
     \<lparr>spec = RandomForestClassifier [(''n_estimators'', PInt 200)], fitted = None\<rparr> 7 []
     [LInt 1, LInt 1, LInt 0]
     = Inr (\<lparr>spec = RandomForestClassifier [(''n_estimators'', PInt 200)],
             fitted = Some (LInt 0)\<rparr>, 8)
   \<and> fit_classifier toy_sklearn
     \<lparr>spec = RandomForestClassifier [(''n_estimators'', PInt 200)], fitted = Some (LInt 0)\<rparr> 8 []
     [LInt 1, LInt 1, LInt 0]
     = Inr (\<lparr>spec = RandomForestClassifier [(''n_estimators'', PInt 200)],
             fitted = Some (LInt 1)\<rparr>, 9)"
  by code_simp

lemma sum_indicator_distinct:
  "distinct ls \<Longrightarrow> (\<Sum>p\<leftarrow>ls. if x = p then 1 else 0 :: nat) = (if x \<in> set ls then 1 else 0)"
  by (induction ls) auto

lemma sum_counts_by_key:
  assumes "distinct ls" and "\<forall>z \<in> set zs. g z \<in> set ls"
  shows "(\<Sum>p\<leftarrow>ls. length (filter (\<lambda>z. P z \<and> g z = p) zs)) = length (filter P zs)"
  using assms(2)
proof (induction zs)
  case Nil
  then show ?case by simp
next
  case (Cons z zs)
  have "(\<Sum>p\<leftarrow>ls. length (filter (\<lambda>z. P z \<and> g z = p) (z # zs)))
      = (\<Sum>p\<leftarrow>ls. (if P z \<and> g z = p then 1 else 0) + length (filter (\<lambda>z. P z \<and> g z = p) zs))"
    by (intro arg_cong[where f = sum_list] map_cong) auto
  also have "\<dots> = (\<Sum>p\<leftarrow>ls. if P z \<and> g z = p then 1 else 0)
                   + (\<Sum>p\<leftarrow>ls. length (filter (\<lambda>z. P z \<and> g z = p) zs))"
    by (simp add: sum_list_addf)
  also have "(\<Sum>p\<leftarrow>ls. if P z \<and> g z = p then 1 else 0 :: nat) = (if P z then 1 else 0)"
    using sum_indicator_distinct[OF assms(1), of "g z"] Cons.prems
    by (cases "P z") auto
  finally show ?case using Cons by simp
qed

lemma confusion_total:
  assumes "distinct ls" and "\<forall>(t, q) \<in> set zs. t \<in> set ls \<and> q \<in> set ls"
  shows "sum_list (map sum_list
           (map (\<lambda>a. map (\<lambda>p. length (filter (\<lambda>(t, q). t = a \<and> q = p) zs)) ls) ls)) = length zs"
proof -
  have inner: "sum_list (map (\<lambda>p. length (filter (\<lambda>(t, q). t = a \<and> q = p) zs)) ls)
             = length (filter (\<lambda>z. True \<and> fst z = a) zs)" for a
    using sum_counts_by_key[OF assms(1), of zs snd "\<lambda>z. fst z = a"] assms(2)
    by (auto simp: split_def)
  have "sum_list (map sum_list
           (map (\<lambda>a. map (\<lambda>p. length (filter (\<lambda>(t, q). t = a \<and> q = p) zs)) ls) ls))
      = (\<Sum>a\<leftarrow>ls. length (filter (\<lambda>z. True \<and> fst z = a) zs))"
    by (simp add: o_def inner)
  also have "\<dots> = length (filter (\<lambda>z. True) zs)"
    using assms(2) by (intro sum_counts_by_key[OF assms(1)]) auto
  finally show ?thesis by simp
qed

lemma unique_labels_props:
  "distinct (unique_labels ys ps)"
  "set (unique_labels ys ps) = set ys \<union> set ps"
  "length (unique_labels ys ps) = card (set ys \<union> set ps)"
  by (simp_all add: unique_labels_def length_remdups_card_conv)

lemma label_key_inj: "label_key a = label_key b \<longleftrightarrow> a = b"
  by (cases a; cases b) auto

lemma unique_labels_binary:
  assumes "set ys \<union> set ps = {LInt 0, LInt 1}"
  shows "unique_labels ys ps = [LInt 0, LInt 1]"
proof -
  let ?l = "unique_labels ys ps"
  have "sorted (map label_key ?l)"
    by (simp add: unique_labels_def)
  moreover have "distinct (map label_key ?l)"
    by (simp add: distinct_map unique_labels_props inj_on_def label_key_inj)
  moreover have "set (map label_key ?l) = set [label_key (LInt 0), label_key (LInt 1)]"
    by (simp add: unique_labels_props assms)
  moreover have "sorted [label_key (LInt 0), label_key (LInt 1)]"
    "distinct [label_key (LInt 0), label_key (LInt 1)]"
    by simp_all
  ultimately have "map label_key ?l = [label_key (LInt 0), label_key (LInt 1)]"
    by (intro sorted_distinct_set_unique)
  then show ?thesis
    by (auto simp: map_eq_Cons_conv label_key_inj simp del: label_key.simps)
qed

text \<open>
  What the evaluator's confusion matrix is whenever lines 83 to 90 succeed: its cells sum
  to the number of test records, it has one row and one column per label that occurs
  among the actual or the predicted labels, and it is the 2 by 2 matrix with the negative
  class first when both classes 0 and 1 occur.
\<close>

lemma evaluator_confusion_matrix:
  assumes "evaluate sk best_model X_test y_test = Inr (y_pred, acc, c)"
  shows "sum_list (map sum_list c) = length y_test
       \<and> length c = card (set y_test \<union> set y_pred)
       \<and> (\<forall>row \<in> set c. length row = card (set y_test \<union> set y_pred))
       \<and> (set y_test \<union> set y_pred = {LInt 0, LInt 1} \<longrightarrow>
            c = [[length (filter (\<lambda>(t, q). t = LInt 0 \<and> q = LInt 0) (zip y_test y_pred)),
                  length (filter (\<lambda>(t, q). t = LInt 0 \<and> q = LInt 1) (zip y_test y_pred))],
                 [length (filter (\<lambda>(t, q). t = LInt 1 \<and> q = LInt 0) (zip y_test y_pred)),
                  length (filter (\<lambda>(t, q). t = LInt 1 \<and> q = LInt 1) (zip y_test y_pred))]])"
proof -
  let ?ls = "unique_labels y_test y_pred"
  let ?zs = "zip y_test y_pred"
  let ?c = "map (\<lambda>a. map (\<lambda>p. length (filter (\<lambda>(t, q). t = a \<and> q = p) ?zs)) ?ls) ?ls"
  from evaluate_returned(4)[OF assms] have len: "length y_test = length y_pred" and c: "c = ?c"
    by (auto simp: confusion_matrix_def split: if_splits)
  have "\<forall>(t, q) \<in> set ?zs. t \<in> set ?ls \<and> q \<in> set ?ls"
    by (auto simp: unique_labels_props dest: set_zip_leftD set_zip_rightD)
  from confusion_total[OF unique_labels_props(1) this]
  have total: "sum_list (map sum_list ?c) = length y_test"
    using len by simp
  have dims: "length ?c = card (set y_test \<union> set y_pred)"
    "\<forall>row \<in> set ?c. length row = card (set y_test \<union> set y_pred)"
    by (auto simp: unique_labels_props)
  have two: "?c = [[length (filter (\<lambda>(t, q). t = LInt 0 \<and> q = LInt 0) ?zs),
                  length (filter (\<lambda>(t, q). t = LInt 0 \<and> q = LInt 1) ?zs)],
                 [length (filter (\<lambda>(t, q). t = LInt 1 \<and> q = LInt 0) ?zs),
                  length (filter (\<lambda>(t, q). t = LInt 1 \<and> q = LInt 1) ?zs)]]"
    if "set y_test \<union> set y_pred = {LInt 0, LInt 1}"
    by (simp add: unique_labels_binary[OF that])
  from total dims two show ?thesis
    unfolding c by (intro conjI impI)
qed

lemma evaluator_confusion_matrix_example:
  "\<exists>y_pred acc. evaluate toy_sklearn \<lparr>spec = forest [], fitted = Some (LInt 1)\<rparr>
       [[], [], [], []] [LInt 1, LInt 0, LInt 1, LInt 1] = Inr (y_pred, acc, [[0, 1], [0, 3]])"
proof -
  have run: "evaluate toy_sklearn \<lparr>spec = forest [], fitted = Some (LInt 1)\<rparr>
       [[], [], [], []] [LInt 1, LInt 0, LInt 1, LInt 1]
     = Inr ([LInt 1, LInt 1, LInt 1, LInt 1], 3 / 4, [[0, 1], [0, 3]])"
    by code_simp
  from evaluator_confusion_matrix[OF run] have "sum_list (map sum_list [[0, 1], [0, 3 :: nat]]) = 4"
    by simp
  with run show ?thesis by blast
qed

text \<open>
  C6. The claim fails on a table whose records all have the same class, here seven records
  of class 1: the run reaches line 90 with two test records, both predicted as class 1,
  and the confusion matrix has the single cell 2 instead of two rows and two columns.
  Line 90 passes no label list, so the library takes the labels from the data.
\<close>

theorem single_class_gives_one_cell:
  "map_sum fst (\<lambda>ev. (accuracy ev, cm ev)) (evaluation toy toy_sklearn one_class_csv)
     = Inr (1, [[2]])"
  by code_simp

end
